theory Spec2Isabelle
  imports Main
begin

section \<open>Stand reservations of the hangar planning API\<close>

text \<open>
  A shallow embedding of \<^verbatim>\<open>apps/api/src/routes/planning/reservations.ts\<close>: the four
  state-changing routes (\<^verbatim>\<open>PUT /by-event/:eventId\<close>, \<^verbatim>\<open>POST /dnd-move\<close>,
  \<^verbatim>\<open>POST /dnd-place\<close>, \<^verbatim>\<open>DELETE /by-event/:eventId\<close>) as functions on an explicit
  database state. The handlers are modelled from the point where the request has passed
  \<^verbatim>\<open>assertPermission\<close> and the role check and its identifiers have been parsed.
\<close>

subsection \<open>Data model\<close>

text \<open>Identifiers are the text primary keys of the schema; a \<^verbatim>\<open>Date\<close> is its
  number of milliseconds since the epoch, so \<^verbatim>\<open>toISOString\<close> is one-to-one on it.\<close>

type_synonym uuid = string
type_synonym datetime = int

datatype EventStatus = DRAFT | PLANNED | CONFIRMED | IN_PROGRESS | DONE | CANCELLED

datatype EventAuditAction = CREATE | UPDATE | RESERVE | UNRESERVE

text \<open>The columns of \<^verbatim>\<open>MaintenanceEvent\<close> that the routes read or write; the row is
  stored under its \<^verbatim>\<open>id\<close>. \<open>ev_tailNumber\<close> is the tail number of the joined aircraft
  (\<^verbatim>\<open>event.aircraft.tailNumber\<close>).\<close>

record MaintenanceEvent =
  ev_status :: EventStatus
  ev_title :: string
  ev_tailNumber :: string
  ev_startAt :: datetime
  ev_endAt :: datetime
  ev_hangarId :: "uuid option"
  ev_layoutId :: "uuid option"

record StandReservation =
  rs_eventId :: uuid
  rs_layoutId :: uuid
  rs_standId :: uuid
  rs_startAt :: datetime
  rs_endAt :: datetime

text \<open>The objects of the JSON column \<^verbatim>\<open>changes\<close>: a placement
  \<^verbatim>\<open>{layoutId, standId, startAt, endAt}\<close>, the event snapshot of \<^verbatim>\<open>dnd-place\<close>, and one
  constructor for each shape that the routes write.\<close>

record placement =
  pl_layoutId :: uuid
  pl_standId :: uuid
  pl_startAt :: datetime
  pl_endAt :: datetime

record event_snapshot =
  sn_startAt :: datetime
  sn_endAt :: datetime
  sn_hangarId :: "uuid option"
  sn_layoutId :: "uuid option"
  sn_reservation :: "placement option"

datatype changes =
    ReservationChange (rc_from: "placement option") (rc_to: "placement option")
  | DndBumped (bumpedByEventId: uuid) (reservationTo: "placement option")
      (statusTo: EventStatus) (hangarIdTo: "uuid option") (layoutIdTo: "uuid option")
  | DndReserve (dr_bumpOnConflict: bool) (dr_bumpedEventIds: "uuid list")
      (dr_from: "placement option") (dr_to: "placement option")
  | DndUpdate (du_bumpOnConflict: bool) (du_bumpedEventIds: "uuid list")
      (du_from: event_snapshot) (du_to: event_snapshot)

record MaintenanceEventAudit =
  au_eventId :: uuid
  au_action :: EventAuditAction
  au_actor :: string
  au_reason :: "string option"
  au_changes :: changes

text \<open>The database: events by primary key, the rows of \<^verbatim>\<open>StandReservation\<close> in
  insertion order, the hangar of every layout, the identifiers of the stands, and the audit
  table in insertion order.\<close>

record store =
  events :: "uuid \<rightharpoonup> MaintenanceEvent"
  reservations :: "StandReservation list"
  layouts :: "uuid \<rightharpoonup> uuid"
  stands :: "uuid set"
  audits :: "MaintenanceEventAudit list"

text \<open>What \<^verbatim>\<open>getActor\<close> reads of the request: \<^verbatim>\<open>req.auth?.email\<close> and the two headers.\<close>

record request =
  auth_email :: "string option"
  hdr_x_actor :: "string option"
  hdr_x_user :: "string option"

datatype error =
    NotFound
  | BadRequest string
  | ZodError string
  | Conflict string string
  | ForeignKeyViolation


subsection \<open>The actor of a request\<close>

definition header_actor :: "request \<Rightarrow> string" where
  "header_actor req =
     take 80 (case hdr_x_actor req of
                Some a \<Rightarrow> a
              | None \<Rightarrow> (case hdr_x_user req of Some u \<Rightarrow> u | None \<Rightarrow> ''browser''))"

definition getActor :: "request \<Rightarrow> string" where
  "getActor req =
     (case auth_email req of
        Some e \<Rightarrow> if e \<noteq> [] then take 80 e else header_actor req
      | None \<Rightarrow> header_actor req)"

subsection \<open>Queries and writes of the Prisma client\<close>

definition findUnique_reservation :: "store \<Rightarrow> uuid \<Rightarrow> StandReservation option" where
  "findUnique_reservation s eventId = find (\<lambda>r. rs_eventId r = eventId) (reservations s)"

text \<open>\<^verbatim>\<open>event: { status: { not: CANCELLED } }\<close>, a filter on the joined event row.\<close>

definition event_not_cancelled :: "store \<Rightarrow> StandReservation \<Rightarrow> bool" where
  "event_not_cancelled s r =
     (case events s (rs_eventId r) of None \<Rightarrow> False | Some e \<Rightarrow> ev_status e \<noteq> CANCELLED)"

text \<open>The two filters on \<^verbatim>\<open>eventId\<close>: \<^verbatim>\<open>{ not: id }\<close> and a plain \<^verbatim>\<open>id\<close>.\<close>

datatype event_filter = EventIdNot uuid | EventIdIs uuid

fun event_filter_ok :: "event_filter \<Rightarrow> uuid \<Rightarrow> bool" where
  "event_filter_ok (EventIdNot x) i = (i \<noteq> x)"
| "event_filter_ok (EventIdIs x) i = (i = x)"

definition conflict_where ::
  "store \<Rightarrow> uuid \<Rightarrow> event_filter \<Rightarrow> datetime \<Rightarrow> datetime \<Rightarrow> StandReservation \<Rightarrow> bool" where
  "conflict_where s standId f startAt endAt r =
     (rs_standId r = standId \<and> event_filter_ok f (rs_eventId r) \<and>
      rs_startAt r < endAt \<and> rs_endAt r > startAt \<and> event_not_cancelled s r)"

text \<open>The \<^verbatim>\<open>findFirst\<close> of the assign route; without \<^verbatim>\<open>orderBy\<close> the first row in table
  order stands for the row the database returns.\<close>

definition findFirst_conflict ::
  "store \<Rightarrow> uuid \<Rightarrow> uuid \<Rightarrow> datetime \<Rightarrow> datetime \<Rightarrow> StandReservation option" where
  "findFirst_conflict s standId eventId startAt endAt =
     find (conflict_where s standId (EventIdNot eventId) startAt endAt) (reservations s)"

text \<open>The \<^verbatim>\<open>findMany\<close> of the drag-and-drop routes: only the named event when
  \<^verbatim>\<open>bumpedEventId\<close> is given, otherwise every other event, ordered by \<^verbatim>\<open>startAt\<close>.\<close>

definition find_conflicts ::
  "store \<Rightarrow> uuid \<Rightarrow> uuid \<Rightarrow> uuid option \<Rightarrow> datetime \<Rightarrow> datetime \<Rightarrow> StandReservation list" where
  "find_conflicts s eventId standId bumpedEventId startAt endAt =
     (case bumpedEventId of
        Some b \<Rightarrow> filter (conflict_where s standId (EventIdIs b) startAt endAt) (reservations s)
      | None \<Rightarrow> sort_key rs_startAt
          (filter (conflict_where s standId (EventIdNot eventId) startAt endAt) (reservations s)))"

text \<open>The message of the 409 is built from the title and the tail number of the blocking
  event; a conflicting row always has its event (the filter joins it).\<close>

definition conflict_error :: "store \<Rightarrow> StandReservation \<Rightarrow> error" where
  "conflict_error s c =
     (case events s (rs_eventId c) of
        Some e \<Rightarrow> Conflict (ev_title e) (ev_tailNumber e)
      | None \<Rightarrow> Conflict [] [])"

text \<open>\<^verbatim>\<open>standReservation.upsert({ where: { eventId }, update, create })\<close>: the row of the
  event is overwritten where it stands, or a new row is added. \<^verbatim>\<open>standId\<close> is a foreign key
  to the stands.\<close>

definition upsert_reservation ::
  "store \<Rightarrow> uuid \<Rightarrow> uuid \<Rightarrow> uuid \<Rightarrow> datetime \<Rightarrow> datetime \<Rightarrow> error + (StandReservation \<times> store)" where
  "upsert_reservation s eventId layoutId standId startAt endAt =
     (let row = \<lparr>rs_eventId = eventId, rs_layoutId = layoutId, rs_standId = standId,
                 rs_startAt = startAt, rs_endAt = endAt\<rparr>
      in if standId \<notin> stands s then Inl ForeignKeyViolation
         else if \<exists>r \<in> set (reservations s). rs_eventId r = eventId
         then Inr (row, s\<lparr>reservations :=
                 map (\<lambda>r. if rs_eventId r = eventId
                          then r\<lparr>rs_layoutId := layoutId, rs_standId := standId,
                                 rs_startAt := startAt, rs_endAt := endAt\<rparr>
                          else r) (reservations s)\<rparr>)
         else Inr (row, s\<lparr>reservations := reservations s @ [row]\<rparr>))"

definition deleteMany_reservations :: "store \<Rightarrow> uuid list \<Rightarrow> nat \<times> store" where
  "deleteMany_reservations s ids =
     (length (filter (\<lambda>r. rs_eventId r \<in> set ids) (reservations s)),
      s\<lparr>reservations := filter (\<lambda>r. rs_eventId r \<notin> set ids) (reservations s)\<rparr>)"

definition update_event :: "store \<Rightarrow> uuid \<Rightarrow> (MaintenanceEvent \<Rightarrow> MaintenanceEvent) \<Rightarrow> store" where
  "update_event s eventId f = s\<lparr>events := (events s)(eventId := map_option f (events s eventId))\<rparr>"

definition updateMany_events :: "store \<Rightarrow> uuid list \<Rightarrow> (MaintenanceEvent \<Rightarrow> MaintenanceEvent) \<Rightarrow> store" where
  "updateMany_events s ids f =
     s\<lparr>events := (\<lambda>i. if i \<in> set ids then map_option f (events s i) else events s i)\<rparr>"

definition create_audit :: "store \<Rightarrow> MaintenanceEventAudit \<Rightarrow> store" where
  "create_audit s a = s\<lparr>audits := audits s @ [a]\<rparr>"

definition snapshot :: "StandReservation \<Rightarrow> placement" where
  "snapshot r = \<lparr>pl_layoutId = rs_layoutId r, pl_standId = rs_standId r,
                 pl_startAt = rs_startAt r, pl_endAt = rs_endAt r\<rparr>"

text \<open>\<^verbatim>\<open>prisma.$transaction\<close>: the writes of the callback are kept when it returns and
  dropped when it throws.\<close>

definition transaction :: "(store \<Rightarrow> error + ('a \<times> store)) \<Rightarrow> store \<Rightarrow> (error + 'a) \<times> store" where
  "transaction body s = (case body s of Inl e \<Rightarrow> (Inl e, s) | Inr (r, s') \<Rightarrow> (Inr r, s'))"

text \<open>The two fixed reasons of the source are Cyrillic literals; they are named here.\<close>

definition reason_first_assignment :: string where
  "reason_first_assignment = ''Pervichnoe naznachenie mesta''"

definition reason_unreserve :: string where
  "reason_unreserve = ''Snyatie rezerva''"

subsection \<open>\<^verbatim>\<open>PUT /by-event/:eventId\<close>\<close>

record assign_body =
  ab_layoutId :: uuid
  ab_standId :: uuid
  ab_startAt :: "datetime option"
  ab_endAt :: "datetime option"
  ab_changeReason :: "string option"

text \<open>\<^verbatim>\<open>changed\<close> of the route: there was no reservation, or one of the four columns of
  the upserted row differs from the earlier row.\<close>

definition changed :: "StandReservation option \<Rightarrow> StandReservation \<Rightarrow> bool" where
  "changed existingReservation reservation =
     (case existingReservation of
        None \<Rightarrow> True
      | Some ex \<Rightarrow> rs_layoutId ex \<noteq> rs_layoutId reservation \<or>
                  rs_standId ex \<noteq> rs_standId reservation \<or>
                  rs_startAt ex \<noteq> rs_startAt reservation \<or>
                  rs_endAt ex \<noteq> rs_endAt reservation)"

text \<open>The route runs its statements on the client itself, not in a transaction: every
  write is kept at once, so the function returns the database as it is when the handler
  returns or throws.\<close>

definition assignReservation ::
  "request \<Rightarrow> uuid \<Rightarrow> assign_body \<Rightarrow> store \<Rightarrow> (error + StandReservation) \<times> store" where
  "assignReservation req eventId body s =
     (case events s eventId of
        None \<Rightarrow> (Inl NotFound, s)
      | Some event \<Rightarrow>
          let existingReservation = findUnique_reservation s eventId;
              startAt = (case ab_startAt body of Some t \<Rightarrow> t | None \<Rightarrow> ev_startAt event);
              endAt = (case ab_endAt body of Some t \<Rightarrow> t | None \<Rightarrow> ev_endAt event)
          in if endAt \<le> startAt then (Inl (BadRequest ''endAt must be after startAt''), s)
             else (case findFirst_conflict s (ab_standId body) eventId startAt endAt of
                Some conflict \<Rightarrow> (Inl (conflict_error s conflict), s)
              | None \<Rightarrow>
                 (case layouts s (ab_layoutId body) of
                    None \<Rightarrow> (Inl NotFound, s)
                  | Some hangarId \<Rightarrow>
                     (case upsert_reservation s eventId (ab_layoutId body) (ab_standId body)
                             startAt endAt of
                        Inl e \<Rightarrow> (Inl e, s)
                      | Inr (reservation, s1) \<Rightarrow>
                          let s2 = update_event s1 eventId
                                     (\<lambda>e. e\<lparr>ev_layoutId := Some (ab_layoutId body),
                                            ev_hangarId := Some hangarId\<rparr>)
                          in if changed existingReservation reservation \<and>
                                ab_changeReason body = None
                             then (Inl (BadRequest
                                     ''changeReason is required when changing reservation''), s2)
                             else (Inr reservation,
                                   create_audit s2
                                     \<lparr>au_eventId = eventId, au_action = RESERVE,
                                      au_actor = getActor req,
                                      au_reason =
                                        (case ab_changeReason body of
                                           Some r \<Rightarrow> Some r
                                         | None \<Rightarrow> (case existingReservation of
                                                      Some ex \<Rightarrow> None
                                                    | None \<Rightarrow> Some reason_first_assignment)),
                                      au_changes = ReservationChange
                                        (map_option snapshot existingReservation)
                                        (Some (snapshot reservation))\<rparr>)))))"

subsection \<open>The bump of the drag-and-drop routes\<close>

text \<open>The loop over \<^verbatim>\<open>toBump\<close> that writes one audit row for each displaced event.\<close>

definition bumped_audit :: "request \<Rightarrow> uuid \<Rightarrow> string \<Rightarrow> uuid \<Rightarrow> MaintenanceEventAudit" where
  "bumped_audit req eventId changeReason bumpedEventId =
     \<lparr>au_eventId = bumpedEventId, au_action = UPDATE, au_actor = getActor req,
      au_reason = Some changeReason,
      au_changes = DndBumped eventId None DRAFT None None\<rparr>"

primrec audit_bumped :: "request \<Rightarrow> uuid \<Rightarrow> string \<Rightarrow> uuid list \<Rightarrow> store \<Rightarrow> store" where
  "audit_bumped req eventId changeReason [] s = s"
| "audit_bumped req eventId changeReason (b # bs) s =
     audit_bumped req eventId changeReason bs
       (create_audit s (bumped_audit req eventId changeReason b))"

text \<open>The block \<^verbatim>\<open>if (conflicts.length > 0 && bump)\<close>, the same in both routes: delete
  the rows of the conflicting events, clear their placement and set them to DRAFT, write
  their audit rows.\<close>

definition bump_conflicts ::
  "request \<Rightarrow> uuid \<Rightarrow> string \<Rightarrow> StandReservation list \<Rightarrow> store \<Rightarrow> store" where
  "bump_conflicts req eventId changeReason conflicts s =
     (let toBump = map rs_eventId conflicts;
          s1 = snd (deleteMany_reservations s toBump);
          s2 = updateMany_events s1 toBump
                 (\<lambda>e. e\<lparr>ev_hangarId := None, ev_layoutId := None, ev_status := DRAFT\<rparr>)
      in audit_bumped req eventId changeReason toBump s2)"

subsection \<open>\<^verbatim>\<open>POST /dnd-move\<close>\<close>

record dnd_move_body =
  dm_eventId :: uuid
  dm_layoutId :: uuid
  dm_standId :: uuid
  dm_bumpOnConflict :: "bool option"
  dm_bumpedEventId :: "uuid option"
  dm_changeReason :: string

definition dndMove_tx ::
  "request \<Rightarrow> dnd_move_body \<Rightarrow> store \<Rightarrow> error + ((StandReservation \<times> uuid list) \<times> store)" where
  "dndMove_tx req body s =
     (let bump = (dm_bumpOnConflict body = Some True) in
      case events s (dm_eventId body) of
        None \<Rightarrow> Inl NotFound
      | Some event \<Rightarrow>
         (case layouts s (dm_layoutId body) of
            None \<Rightarrow> Inl NotFound
          | Some hangarId \<Rightarrow>
             let startAt = ev_startAt event;
                 endAt = ev_endAt event;
                 conflicts = find_conflicts s (dm_eventId body) (dm_standId body)
                               (dm_bumpedEventId body) startAt endAt
             in if conflicts \<noteq> [] \<and> \<not> bump then Inl (conflict_error s (hd conflicts))
                else
                  let bumpedEventIds = (if conflicts \<noteq> [] \<and> bump
                                        then map rs_eventId conflicts else []);
                      s1 = (if conflicts \<noteq> [] \<and> bump
                            then bump_conflicts req (dm_eventId body) (dm_changeReason body)
                                   conflicts s
                            else s);
                      existingReservation =
                        map_option snapshot (findUnique_reservation s (dm_eventId body))
                  in (case upsert_reservation s1 (dm_eventId body) (dm_layoutId body)
                             (dm_standId body) startAt endAt of
                        Inl e \<Rightarrow> Inl e
                      | Inr (reservation, s2) \<Rightarrow>
                          let s3 = update_event s2 (dm_eventId body)
                                     (\<lambda>e. e\<lparr>ev_layoutId := Some (dm_layoutId body),
                                            ev_hangarId := Some hangarId\<rparr>);
                              s4 = create_audit s3
                                     \<lparr>au_eventId = dm_eventId body, au_action = RESERVE,
                                      au_actor = getActor req,
                                      au_reason = Some (dm_changeReason body),
                                      au_changes = DndReserve bump bumpedEventIds
                                        existingReservation (Some (snapshot reservation))\<rparr>
                          in Inr ((reservation, bumpedEventIds), s4))))"

definition dndMove ::
  "request \<Rightarrow> dnd_move_body \<Rightarrow> store \<Rightarrow> (error + (StandReservation \<times> uuid list)) \<times> store" where
  "dndMove req body s = transaction (dndMove_tx req body) s"

subsection \<open>\<^verbatim>\<open>POST /dnd-place\<close>\<close>

record dnd_place_body =
  dp_eventId :: uuid
  dp_layoutId :: uuid
  dp_standId :: uuid
  dp_startAt :: datetime
  dp_endAt :: datetime
  dp_bumpOnConflict :: "bool option"
  dp_bumpedEventId :: "uuid option"
  dp_changeReason :: string

definition dndPlace_tx ::
  "request \<Rightarrow> dnd_place_body \<Rightarrow> store \<Rightarrow> error + ((StandReservation \<times> uuid list) \<times> store)" where
  "dndPlace_tx req body s =
     (let bump = (dp_bumpOnConflict body = Some True) in
      case events s (dp_eventId body) of
        None \<Rightarrow> Inl NotFound
      | Some event \<Rightarrow>
         (case layouts s (dp_layoutId body) of
            None \<Rightarrow> Inl NotFound
          | Some hangarId \<Rightarrow>
             let conflicts = find_conflicts s (dp_eventId body) (dp_standId body)
                               (dp_bumpedEventId body) (dp_startAt body) (dp_endAt body)
             in if conflicts \<noteq> [] \<and> \<not> bump then Inl (conflict_error s (hd conflicts))
                else
                  let bumpedEventIds = (if conflicts \<noteq> [] \<and> bump
                                        then map rs_eventId conflicts else []);
                      s1 = (if conflicts \<noteq> [] \<and> bump
                            then bump_conflicts req (dp_eventId body) (dp_changeReason body)
                                   conflicts s
                            else s);
                      prev = \<lparr>sn_startAt = ev_startAt event, sn_endAt = ev_endAt event,
                              sn_hangarId = ev_hangarId event, sn_layoutId = ev_layoutId event,
                              sn_reservation =
                                map_option snapshot (findUnique_reservation s (dp_eventId body))\<rparr>;
                      s2 = update_event s1 (dp_eventId body)
                             (\<lambda>e. e\<lparr>ev_startAt := dp_startAt body, ev_endAt := dp_endAt body,
                                    ev_layoutId := Some (dp_layoutId body),
                                    ev_hangarId := Some hangarId\<rparr>)
                  in (case upsert_reservation s2 (dp_eventId body) (dp_layoutId body)
                             (dp_standId body) (dp_startAt body) (dp_endAt body) of
                        Inl e \<Rightarrow> Inl e
                      | Inr (reservation, s3) \<Rightarrow>
                          let s4 = create_audit s3
                                     \<lparr>au_eventId = dp_eventId body, au_action = UPDATE,
                                      au_actor = getActor req,
                                      au_reason = Some (dp_changeReason body),
                                      au_changes = DndUpdate bump bumpedEventIds prev
                                        \<lparr>sn_startAt = dp_startAt body, sn_endAt = dp_endAt body,
                                         sn_hangarId = Some hangarId,
                                         sn_layoutId = Some (dp_layoutId body),
                                         sn_reservation = Some (snapshot reservation)\<rparr>\<rparr>
                          in Inr ((reservation, bumpedEventIds), s4))))"

text \<open>The body is parsed before the transaction: \<^verbatim>\<open>.refine((v) => v.endAt > v.startAt)\<close>.\<close>

definition dndPlace ::
  "request \<Rightarrow> dnd_place_body \<Rightarrow> store \<Rightarrow> (error + (StandReservation \<times> uuid list)) \<times> store" where
  "dndPlace req body s =
     (if \<not> dp_endAt body > dp_startAt body
      then (Inl (ZodError ''endAt must be after startAt''), s)
      else transaction (dndPlace_tx req body) s)"

subsection \<open>\<^verbatim>\<open>DELETE /by-event/:eventId\<close>\<close>

text \<open>The route has no throwing statement; its result is the field \<^verbatim>\<open>deleted\<close> of the
  reply \<^verbatim>\<open>{ ok: true, deleted }\<close>.\<close>

definition unassignReservation :: "request \<Rightarrow> uuid \<Rightarrow> store \<Rightarrow> nat \<times> store" where
  "unassignReservation req eventId s =
     (case findUnique_reservation s eventId of
        None \<Rightarrow> (0, s)
      | Some existing \<Rightarrow>
          let del = deleteMany_reservations s [eventId];
              s2 = create_audit (snd del)
                     \<lparr>au_eventId = eventId, au_action = UNRESERVE, au_actor = getActor req,
                      au_reason = Some reason_unreserve,
                      au_changes = ReservationChange (Some (snapshot existing)) None\<rparr>
          in (fst del, s2))"

subsection \<open>Sequences of requests\<close>

datatype op =
    Assign request uuid assign_body
  | DndMove request dnd_move_body
  | DndPlace request dnd_place_body
  | Unassign request uuid

fun apply_op :: "op \<Rightarrow> store \<Rightarrow> store" where
  "apply_op (Assign req eventId body) s = snd (assignReservation req eventId body s)"
| "apply_op (DndMove req body) s = snd (dndMove req body s)"
| "apply_op (DndPlace req body) s = snd (dndPlace req body s)"
| "apply_op (Unassign req eventId) s = snd (unassignReservation req eventId s)"

definition run :: "op list \<Rightarrow> store \<Rightarrow> store" where
  "run ops s = fold apply_op ops s"

fun op_request :: "op \<Rightarrow> request" where
  "op_request (Assign req eventId body) = req"
| "op_request (DndMove req body) = req"
| "op_request (DndPlace req body) = req"
| "op_request (Unassign req eventId) = req"

subsection \<open>The properties of the database that the specification names\<close>

definition unique_reservation :: "store \<Rightarrow> bool" where
  "unique_reservation s = distinct (map rs_eventId (reservations s))"

definition windows_overlap :: "StandReservation \<Rightarrow> StandReservation \<Rightarrow> bool" where
  "windows_overlap a b = (rs_startAt a < rs_endAt b \<and> rs_startAt b < rs_endAt a)"

definition non_overlap :: "store \<Rightarrow> bool" where
  "non_overlap s =
     list_all (\<lambda>a. list_all (\<lambda>b.
        \<not> (rs_eventId a \<noteq> rs_eventId b \<and> rs_standId a = rs_standId b \<and>
           event_not_cancelled s a \<and> event_not_cancelled s b \<and> windows_overlap a b))
       (reservations s)) (reservations s)"

text \<open>The conflict of the specification, in its words: the existing window starts before
  the target window ends and ends after it starts, the owning event is not cancelled, and
  the owning event is not the excluded one (when one is given).\<close>

definition spec_conflict ::
  "store \<Rightarrow> datetime \<Rightarrow> datetime \<Rightarrow> uuid option \<Rightarrow> StandReservation \<Rightarrow> bool" where
  "spec_conflict s windowStart windowEnd excludeEventId existing =
     (rs_startAt existing < windowEnd \<and> rs_endAt existing > windowStart \<and>
      (case events s (rs_eventId existing) of
         None \<Rightarrow> False
       | Some e \<Rightarrow> ev_status e \<noteq> CANCELLED) \<and>
      (case excludeEventId of None \<Rightarrow> True | Some x \<Rightarrow> rs_eventId existing \<noteq> x))"

text \<open>The actor of the specification, in its words: the authenticated email when there is
  one, otherwise the header \<^verbatim>\<open>x-actor\<close>, otherwise the header \<^verbatim>\<open>x-user\<close>, otherwise
  \<^verbatim>\<open>browser\<close>. An empty email counts as none.\<close>

definition spec_actor :: "request \<Rightarrow> string" where
  "spec_actor req =
     (if auth_email req \<noteq> None \<and> auth_email req \<noteq> Some []
      then (case auth_email req of Some e \<Rightarrow> e | None \<Rightarrow> [])
      else if hdr_x_actor req \<noteq> None
      then (case hdr_x_actor req of Some a \<Rightarrow> a | None \<Rightarrow> [])
      else if hdr_x_user req \<noteq> None
      then (case hdr_x_user req of Some u \<Rightarrow> u | None \<Rightarrow> [])
      else ''browser'')"

text \<open>The placement fields of the events follow the reservations: every reservation has
  its event, the event's layout is the layout of the reservation, and the event's hangar
  is the hangar of that layout.\<close>

definition pointer_sync :: "store \<Rightarrow> bool" where
  "pointer_sync s =
     list_all (\<lambda>r. case events s (rs_eventId r) of
                     None \<Rightarrow> False
                   | Some ev \<Rightarrow> ev_layoutId ev = Some (rs_layoutId r) \<and>
                               ev_hangarId ev \<noteq> None \<and>
                               ev_hangarId ev = layouts s (rs_layoutId r))
       (reservations s)"

text \<open>The \<^verbatim>\<open>bumpedEventId\<close> of a request, if it has one.\<close>

fun op_bumpedEventId :: "op \<Rightarrow> uuid option" where
  "op_bumpedEventId (Assign req eventId body) = None"
| "op_bumpedEventId (DndMove req body) = dm_bumpedEventId body"
| "op_bumpedEventId (DndPlace req body) = dp_bumpedEventId body"
| "op_bumpedEventId (Unassign req eventId) = None"

subsection \<open>An example database\<close>

text \<open>Three planned events with the window \<open>[0, 10)\<close>, planned for the layout \<open>L\<close> of
  hangar \<open>H\<close>; a second layout \<open>L2\<close> of hangar \<open>H2\<close>; the stands \<open>X\<close> and \<open>Y\<close>; a
  request without credentials.\<close>

definition example_event :: MaintenanceEvent where
  "example_event = \<lparr>ev_status = PLANNED, ev_title = ''A-check'', ev_tailNumber = ''RA-1'',
     ev_startAt = 0, ev_endAt = 10, ev_hangarId = Some ''H'', ev_layoutId = Some ''L''\<rparr>"

definition example_store :: store where
  "example_store = \<lparr>events = [''E'' \<mapsto> example_event, ''B'' \<mapsto> example_event,
                                ''C'' \<mapsto> example_event],
     reservations = [], layouts = [''L'' \<mapsto> ''H'', ''L2'' \<mapsto> ''H2''],
     stands = {''X'', ''Y''}, audits = []\<rparr>"

definition example_request :: request where
  "example_request = \<lparr>auth_email = None, hdr_x_actor = None, hdr_x_user = None\<rparr>"

definition example_assign ::
  "uuid \<Rightarrow> uuid \<Rightarrow> datetime \<Rightarrow> datetime \<Rightarrow> string option \<Rightarrow> assign_body" where
  "example_assign layoutId standId startAt endAt reason = \<lparr>ab_layoutId = layoutId,
     ab_standId = standId, ab_startAt = Some startAt, ab_endAt = Some endAt,
     ab_changeReason = reason\<rparr>"

definition example_move :: "uuid \<Rightarrow> uuid \<Rightarrow> bool \<Rightarrow> uuid option \<Rightarrow> dnd_move_body" where
  "example_move eventId standId bump bumped = \<lparr>dm_eventId = eventId, dm_layoutId = ''L'',
     dm_standId = standId, dm_bumpOnConflict = Some bump, dm_bumpedEventId = bumped,
     dm_changeReason = ''swap''\<rparr>"

definition example_place ::
  "uuid \<Rightarrow> uuid \<Rightarrow> datetime \<Rightarrow> datetime \<Rightarrow> bool \<Rightarrow> uuid option \<Rightarrow> dnd_place_body" where
  "example_place eventId standId startAt endAt bump bumped = \<lparr>dp_eventId = eventId,
     dp_layoutId = ''L'', dp_standId = standId, dp_startAt = startAt, dp_endAt = endAt,
     dp_bumpOnConflict = Some bump, dp_bumpedEventId = bumped, dp_changeReason = ''retime''\<rparr>"

text \<open>A reservation in layout \<open>L\<close>, and the example database with the listed
  reservations \<open>(event, stand, startAt, endAt)\<close>.\<close>

definition example_row :: "uuid \<Rightarrow> uuid \<Rightarrow> datetime \<Rightarrow> datetime \<Rightarrow> StandReservation" where
  "example_row eventId standId startAt endAt = \<lparr>rs_eventId = eventId, rs_layoutId = ''L'',
     rs_standId = standId, rs_startAt = startAt, rs_endAt = endAt\<rparr>"

definition example_placed :: "(uuid \<times> uuid \<times> datetime \<times> datetime) list \<Rightarrow> store" where
  "example_placed ps =
     example_store\<lparr>reservations := map (\<lambda>(e, x, a, b). example_row e x a b) ps\<rparr>"

lemmas example_defs = example_event_def example_store_def example_request_def
  example_assign_def example_move_def example_place_def example_row_def example_placed_def

lemmas route_defs = assignReservation_def dndMove_def dndMove_tx_def dndPlace_def
  dndPlace_tx_def unassignReservation_def transaction_def bump_conflicts_def
  bumped_audit_def findUnique_reservation_def findFirst_conflict_def find_conflicts_def
  conflict_where_def conflict_error_def event_not_cancelled_def upsert_reservation_def
  deleteMany_reservations_def update_event_def updateMany_events_def create_audit_def
  snapshot_def changed_def

section \<open>Auxiliary facts\<close>

subsection \<open>What each write changes\<close>

lemma audit_bumped_frame:
  "events (audit_bumped req e r bs s) = events s"
  "reservations (audit_bumped req e r bs s) = reservations s"
  "layouts (audit_bumped req e r bs s) = layouts s"
  "stands (audit_bumped req e r bs s) = stands s"
  by (induction bs arbitrary: s) (simp_all add: create_audit_def)

lemma audit_bumped_audits:
  "audits (audit_bumped req e r bs s) = audits s @ map (bumped_audit req e r) bs"
  by (induction bs arbitrary: s) (simp_all add: create_audit_def)


lemma conflict_where_spec:
  "conflict_where s standId (EventIdNot x) ws we r \<longleftrightarrow>
     rs_standId r = standId \<and> spec_conflict s ws we (Some x) r"
  by (auto simp: conflict_where_def spec_conflict_def event_not_cancelled_def)

lemma getActor_spec: "getActor req = take 80 (spec_actor req)"
  by (simp add: getActor_def header_actor_def spec_actor_def split: option.splits)

lemma upsert_frame:
  assumes "upsert_reservation s e l x a b = Inr (r, s')"
  shows "events s' = events s" "layouts s' = layouts s" "stands s' = stands s" "audits s' = audits s"
  using assms by (auto simp: upsert_reservation_def Let_def split: if_splits)

lemma bump_conflicts_audits:
  "audits (bump_conflicts req e r cs s) = audits s @ map (bumped_audit req e r) (map rs_eventId cs)"
  by (simp add: bump_conflicts_def Let_def audit_bumped_audits updateMany_events_def deleteMany_reservations_def)

lemma bump_conflicts_Nil: "bump_conflicts req e r [] s = s"
  by (simp add: bump_conflicts_def deleteMany_reservations_def updateMany_events_def)

lemma bump_conflicts_fields:
  "reservations (bump_conflicts req e r cs s) =
     filter (\<lambda>x. rs_eventId x \<notin> rs_eventId ` set cs) (reservations s)"
  "events (bump_conflicts req e r cs s) i =
     (if i \<in> rs_eventId ` set cs
      then map_option (\<lambda>ev. ev\<lparr>ev_hangarId := None, ev_layoutId := None, ev_status := DRAFT\<rparr>)
             (events s i)
      else events s i)"
  "layouts (bump_conflicts req e r cs s) = layouts s"
  "stands (bump_conflicts req e r cs s) = stands s"
  by (simp_all add: bump_conflicts_def Let_def deleteMany_reservations_def
      updateMany_events_def audit_bumped_frame)

lemma upsert_Inr:
  assumes "upsert_reservation s e l x a b = Inr (r, s')"
  shows "r = \<lparr>rs_eventId = e, rs_layoutId = l, rs_standId = x, rs_startAt = a, rs_endAt = b\<rparr>"
    and "x \<in> stands s"
    and "reservations s' =
          (if e \<in> rs_eventId ` set (reservations s)
           then map (\<lambda>y. if rs_eventId y = e then r else y) (reservations s)
           else reservations s @ [r])"
  using assms by (auto simp: upsert_reservation_def Let_def split: if_splits)

lemma assignReservation_cases:
  obtains
    (rejected) err where "assignReservation req e body s = (Inl err, s)"
  | (written) event hangarId st en r s1 where
      "events s e = Some event"
      "st = (case ab_startAt body of Some t \<Rightarrow> t | None \<Rightarrow> ev_startAt event)"
      "en = (case ab_endAt body of Some t \<Rightarrow> t | None \<Rightarrow> ev_endAt event)"
      "st < en"
      "findFirst_conflict s (ab_standId body) e st en = None"
      "layouts s (ab_layoutId body) = Some hangarId"
      "upsert_reservation s e (ab_layoutId body) (ab_standId body) st en = Inr (r, s1)"
      "assignReservation req e body s =
         (if changed (findUnique_reservation s e) r \<and> ab_changeReason body = None
          then (Inl (BadRequest ''changeReason is required when changing reservation''),
                update_event s1 e (\<lambda>ev. ev\<lparr>ev_layoutId := Some (ab_layoutId body),
                                           ev_hangarId := Some hangarId\<rparr>))
          else (Inr r,
                create_audit
                  (update_event s1 e (\<lambda>ev. ev\<lparr>ev_layoutId := Some (ab_layoutId body),
                                              ev_hangarId := Some hangarId\<rparr>))
                  \<lparr>au_eventId = e, au_action = RESERVE, au_actor = getActor req,
                   au_reason = (case ab_changeReason body of
                                  Some x \<Rightarrow> Some x
                                | None \<Rightarrow> (case findUnique_reservation s e of
                                             Some ex \<Rightarrow> None
                                           | None \<Rightarrow> Some reason_first_assignment)),
                   au_changes = ReservationChange
                     (map_option snapshot (findUnique_reservation s e))
                     (Some (snapshot r))\<rparr>))"
proof (cases "events s e")
  case None
  then have "assignReservation req e body s = (Inl NotFound, s)"
    by (simp add: assignReservation_def)
  then show ?thesis by (rule rejected)
next
  case (Some event)
  define st where "st = (case ab_startAt body of Some t \<Rightarrow> t | None \<Rightarrow> ev_startAt event)"
  define en where "en = (case ab_endAt body of Some t \<Rightarrow> t | None \<Rightarrow> ev_endAt event)"
  note unf = assignReservation_def Let_def Some st_def [symmetric] en_def [symmetric]
  show ?thesis
  proof (cases "en \<le> st")
    case True
    then have "assignReservation req e body s = (Inl (BadRequest ''endAt must be after startAt''), s)"
      by (simp add: unf)
    then show ?thesis by (rule rejected)
  next
    case window: False
    show ?thesis
    proof (cases "findFirst_conflict s (ab_standId body) e st en")
      case (Some c)
      with window have "assignReservation req e body s = (Inl (conflict_error s c), s)"
        by (simp add: unf)
      then show ?thesis by (rule rejected)
    next
      case free: None
      show ?thesis
      proof (cases "layouts s (ab_layoutId body)")
        case None
        with window free have "assignReservation req e body s = (Inl NotFound, s)"
          by (simp add: unf)
        then show ?thesis by (rule rejected)
      next
        case layout: (Some hangarId)
        show ?thesis
        proof (cases "upsert_reservation s e (ab_layoutId body) (ab_standId body) st en")
          case (Inl err)
          with window free layout have "assignReservation req e body s = (Inl err, s)"
            by (simp add: unf)
          then show ?thesis by (rule rejected)
        next
          case (Inr p)
          obtain r s1 where p: "p = (r, s1)" by (cases p)
          from window have lt: "st < en" by simp
          show ?thesis
            by (rule written [OF \<open>events s e = Some event\<close> st_def en_def lt free layout
                  Inr [unfolded p]])
              (simp add: unf window free layout Inr p)
        qed
      qed
    qed
  qed
qed

lemma dndMove_tx_Inr:
  assumes "dndMove_tx req body s = Inr (res, s')"
  obtains (moved) event hangarId s2 where
    "events s (dm_eventId body) = Some event"
    "layouts s (dm_layoutId body) = Some hangarId"
    "find_conflicts s (dm_eventId body) (dm_standId body) (dm_bumpedEventId body)
        (ev_startAt event) (ev_endAt event) \<noteq> [] \<Longrightarrow> dm_bumpOnConflict body = Some True"
    "snd res = map rs_eventId (find_conflicts s (dm_eventId body) (dm_standId body)
        (dm_bumpedEventId body) (ev_startAt event) (ev_endAt event))"
    "upsert_reservation
       (bump_conflicts req (dm_eventId body) (dm_changeReason body)
          (find_conflicts s (dm_eventId body) (dm_standId body) (dm_bumpedEventId body)
             (ev_startAt event) (ev_endAt event)) s)
       (dm_eventId body) (dm_layoutId body) (dm_standId body) (ev_startAt event) (ev_endAt event)
     = Inr (fst res, s2)"
    "s' = create_audit
            (update_event s2 (dm_eventId body)
               (\<lambda>ev. ev\<lparr>ev_layoutId := Some (dm_layoutId body), ev_hangarId := Some hangarId\<rparr>))
            \<lparr>au_eventId = dm_eventId body, au_action = RESERVE, au_actor = getActor req,
             au_reason = Some (dm_changeReason body),
             au_changes = DndReserve (dm_bumpOnConflict body = Some True) (snd res)
               (map_option snapshot (findUnique_reservation s (dm_eventId body)))
               (Some (snapshot (fst res)))\<rparr>"
proof -
  from assms obtain event where ev: "events s (dm_eventId body) = Some event"
    by (cases "events s (dm_eventId body)") (simp_all add: dndMove_tx_def)
  from assms ev obtain hangarId where la: "layouts s (dm_layoutId body) = Some hangarId"
    by (cases "layouts s (dm_layoutId body)") (simp_all add: dndMove_tx_def)
  define cs where "cs = find_conflicts s (dm_eventId body) (dm_standId body)
      (dm_bumpedEventId body) (ev_startAt event) (ev_endAt event)"
  note unf = dndMove_tx_def Let_def ev la cs_def [symmetric] option.case
  from assms have ok: "cs \<noteq> [] \<Longrightarrow> dm_bumpOnConflict body = Some True"
    by (simp add: unf split: if_splits)
  have s1: "(if cs \<noteq> [] \<and> dm_bumpOnConflict body = Some True
             then bump_conflicts req (dm_eventId body) (dm_changeReason body) cs s else s)
            = bump_conflicts req (dm_eventId body) (dm_changeReason body) cs s"
    using ok by (cases "cs = []") (simp_all add: bump_conflicts_Nil)
  have ids: "(if cs \<noteq> [] \<and> dm_bumpOnConflict body = Some True then map rs_eventId cs else [])
            = map rs_eventId cs"
    using ok by (cases "cs = []") simp_all
  from assms ok have tail:
    "(case upsert_reservation (bump_conflicts req (dm_eventId body) (dm_changeReason body) cs s)
             (dm_eventId body) (dm_layoutId body) (dm_standId body) (ev_startAt event) (ev_endAt event) of
        Inl e \<Rightarrow> Inl e
      | Inr (reservation, s2) \<Rightarrow>
          Inr ((reservation, map rs_eventId cs),
               create_audit
                 (update_event s2 (dm_eventId body)
                    (\<lambda>ev. ev\<lparr>ev_layoutId := Some (dm_layoutId body), ev_hangarId := Some hangarId\<rparr>))
                 \<lparr>au_eventId = dm_eventId body, au_action = RESERVE, au_actor = getActor req,
                  au_reason = Some (dm_changeReason body),
                  au_changes = DndReserve (dm_bumpOnConflict body = Some True) (map rs_eventId cs)
                    (map_option snapshot (findUnique_reservation s (dm_eventId body)))
                    (Some (snapshot reservation))\<rparr>)) = Inr (res, s')"
    unfolding unf s1 ids by (simp split: if_splits)
  then obtain r s2 where
    up: "upsert_reservation (bump_conflicts req (dm_eventId body) (dm_changeReason body) cs s)
             (dm_eventId body) (dm_layoutId body) (dm_standId body) (ev_startAt event) (ev_endAt event)
         = Inr (r, s2)"
    by (auto split: sum.splits)
  from tail have res: "res = (r, map rs_eventId cs)" and s': "s' = create_audit
                 (update_event s2 (dm_eventId body)
                    (\<lambda>ev. ev\<lparr>ev_layoutId := Some (dm_layoutId body), ev_hangarId := Some hangarId\<rparr>))
                 \<lparr>au_eventId = dm_eventId body, au_action = RESERVE, au_actor = getActor req,
                  au_reason = Some (dm_changeReason body),
                  au_changes = DndReserve (dm_bumpOnConflict body = Some True) (map rs_eventId cs)
                    (map_option snapshot (findUnique_reservation s (dm_eventId body)))
                    (Some (snapshot r))\<rparr>"
    by (simp_all add: up)
  show ?thesis
    by (rule moved [OF ev la, of s2]) (use ok up res s' in \<open>simp_all add: cs_def\<close>)
qed

lemma update_event_fields:
  "events (update_event s e f) = (events s)(e := map_option f (events s e))"
  "reservations (update_event s e f) = reservations s"
  "layouts (update_event s e f) = layouts s"
  "stands (update_event s e f) = stands s"
  "audits (update_event s e f) = audits s"
  by (simp_all add: update_event_def)

lemma create_audit_fields:
  "events (create_audit s a) = events s"
  "reservations (create_audit s a) = reservations s"
  "layouts (create_audit s a) = layouts s"
  "stands (create_audit s a) = stands s"
  "audits (create_audit s a) = audits s @ [a]"
  by (simp_all add: create_audit_def)

lemma dndPlace_tx_Inr:
  assumes "dndPlace_tx req body s = Inr (res, s')"
  obtains (placed) event hangarId s3 where
    "events s (dp_eventId body) = Some event"
    "layouts s (dp_layoutId body) = Some hangarId"
    "find_conflicts s (dp_eventId body) (dp_standId body) (dp_bumpedEventId body)
        (dp_startAt body) (dp_endAt body) \<noteq> [] \<Longrightarrow> dp_bumpOnConflict body = Some True"
    "snd res = map rs_eventId (find_conflicts s (dp_eventId body) (dp_standId body)
        (dp_bumpedEventId body) (dp_startAt body) (dp_endAt body))"
    "upsert_reservation
       (update_event
          (bump_conflicts req (dp_eventId body) (dp_changeReason body)
             (find_conflicts s (dp_eventId body) (dp_standId body) (dp_bumpedEventId body)
                (dp_startAt body) (dp_endAt body)) s)
          (dp_eventId body)
          (\<lambda>ev. ev\<lparr>ev_startAt := dp_startAt body, ev_endAt := dp_endAt body,
                    ev_layoutId := Some (dp_layoutId body), ev_hangarId := Some hangarId\<rparr>))
       (dp_eventId body) (dp_layoutId body) (dp_standId body) (dp_startAt body) (dp_endAt body)
     = Inr (fst res, s3)"
    "s' = create_audit s3
            \<lparr>au_eventId = dp_eventId body, au_action = UPDATE, au_actor = getActor req,
             au_reason = Some (dp_changeReason body),
             au_changes = DndUpdate (dp_bumpOnConflict body = Some True) (snd res)
               \<lparr>sn_startAt = ev_startAt event, sn_endAt = ev_endAt event,
                sn_hangarId = ev_hangarId event, sn_layoutId = ev_layoutId event,
                sn_reservation = map_option snapshot (findUnique_reservation s (dp_eventId body))\<rparr>
               \<lparr>sn_startAt = dp_startAt body, sn_endAt = dp_endAt body,
                sn_hangarId = Some hangarId, sn_layoutId = Some (dp_layoutId body),
                sn_reservation = Some (snapshot (fst res))\<rparr>\<rparr>"
proof -
  from assms obtain event where ev: "events s (dp_eventId body) = Some event"
    by (cases "events s (dp_eventId body)") (simp_all add: dndPlace_tx_def)
  from assms ev obtain hangarId where la: "layouts s (dp_layoutId body) = Some hangarId"
    by (cases "layouts s (dp_layoutId body)") (simp_all add: dndPlace_tx_def)
  define cs where "cs = find_conflicts s (dp_eventId body) (dp_standId body)
      (dp_bumpedEventId body) (dp_startAt body) (dp_endAt body)"
  note unf = dndPlace_tx_def Let_def ev la cs_def [symmetric] option.case
  from assms have ok: "cs \<noteq> [] \<Longrightarrow> dp_bumpOnConflict body = Some True"
    by (simp add: unf split: if_splits)
  have s1: "(if cs \<noteq> [] \<and> dp_bumpOnConflict body = Some True
             then bump_conflicts req (dp_eventId body) (dp_changeReason body) cs s else s)
            = bump_conflicts req (dp_eventId body) (dp_changeReason body) cs s"
    using ok by (cases "cs = []") (simp_all add: bump_conflicts_Nil)
  have ids: "(if cs \<noteq> [] \<and> dp_bumpOnConflict body = Some True then map rs_eventId cs else [])
            = map rs_eventId cs"
    using ok by (cases "cs = []") simp_all
  define s2 where "s2 = update_event
          (bump_conflicts req (dp_eventId body) (dp_changeReason body) cs s) (dp_eventId body)
          (\<lambda>ev. ev\<lparr>ev_startAt := dp_startAt body, ev_endAt := dp_endAt body,
                    ev_layoutId := Some (dp_layoutId body), ev_hangarId := Some hangarId\<rparr>)"
  define audit where "audit = (\<lambda>reservation.
            \<lparr>au_eventId = dp_eventId body, au_action = UPDATE, au_actor = getActor req,
             au_reason = Some (dp_changeReason body),
             au_changes = DndUpdate (dp_bumpOnConflict body = Some True) (map rs_eventId cs)
               \<lparr>sn_startAt = ev_startAt event, sn_endAt = ev_endAt event,
                sn_hangarId = ev_hangarId event, sn_layoutId = ev_layoutId event,
                sn_reservation = map_option snapshot (findUnique_reservation s (dp_eventId body))\<rparr>
               \<lparr>sn_startAt = dp_startAt body, sn_endAt = dp_endAt body,
                sn_hangarId = Some hangarId, sn_layoutId = Some (dp_layoutId body),
                sn_reservation = Some (snapshot reservation)\<rparr>\<rparr>)"
  from assms ok have tail:
    "(case upsert_reservation s2 (dp_eventId body) (dp_layoutId body) (dp_standId body)
             (dp_startAt body) (dp_endAt body) of
        Inl e \<Rightarrow> Inl e
      | Inr (reservation, s3) \<Rightarrow>
          Inr ((reservation, map rs_eventId cs), create_audit s3 (audit reservation)))
     = Inr (res, s')"
    unfolding unf s1 ids s2_def audit_def by (simp split: if_splits)
  then obtain r s3 where
    up: "upsert_reservation s2 (dp_eventId body) (dp_layoutId body) (dp_standId body)
             (dp_startAt body) (dp_endAt body) = Inr (r, s3)"
    by (auto split: sum.splits)
  from tail have res: "res = (r, map rs_eventId cs)" and s': "s' = create_audit s3 (audit r)"
    by (simp_all add: up)
  show ?thesis
    by (rule placed [OF ev la, of s3])
      (use ok up res s' in \<open>simp_all add: cs_def s2_def audit_def\<close>)
qed

lemma bumped_audit_actor: "au_actor (bumped_audit req e r b) = getActor req"
  by (simp add: bumped_audit_def)

lemma op_audits_actor:
  "\<exists>new. audits (apply_op op s) = audits s @ new \<and>
         list_all (\<lambda>a. au_actor a = getActor (op_request op)) new"
proof (cases op)
  case (Assign req e body)
  show ?thesis
  proof (cases rule: assignReservation_cases [of req e body s])
    case (rejected err)
    then show ?thesis using Assign by simp
  next
    case (written event hangarId st en r s1)
    then show ?thesis using Assign upsert_frame(4) [OF written(7)]
      by (simp add: update_event_fields create_audit_fields)
  qed
next
  case (DndMove req body)
  show ?thesis
  proof (cases "dndMove_tx req body s")
    case (Inl err)
    then show ?thesis using DndMove by (simp add: dndMove_def transaction_def)
  next
    case (Inr p)
    obtain res s' where p: "p = (res, s')" by (cases p)
    from Inr [unfolded p] show ?thesis
    proof (cases rule: dndMove_tx_Inr)
      case (moved event hangarId s2)
      show ?thesis using DndMove Inr p
        by (simp add: dndMove_def transaction_def moved(6) create_audit_fields
            update_event_fields upsert_frame(4) [OF moved(5)] bump_conflicts_audits
            list_all_iff bumped_audit_actor)
    qed
  qed
next
  case (DndPlace req body)
  show ?thesis
  proof (cases "dp_endAt body > dp_startAt body")
    case False
    then show ?thesis using DndPlace by (simp add: dndPlace_def)
  next
    case True
    show ?thesis
    proof (cases "dndPlace_tx req body s")
      case (Inl err)
      then show ?thesis using DndPlace True by (simp add: dndPlace_def transaction_def)
    next
      case (Inr p)
      obtain res s' where p: "p = (res, s')" by (cases p)
      from Inr [unfolded p] show ?thesis
      proof (cases rule: dndPlace_tx_Inr)
        case (placed event hangarId s3)
        show ?thesis using DndPlace Inr p True
          by (simp add: dndPlace_def transaction_def placed(6) create_audit_fields
              update_event_fields upsert_frame(4) [OF placed(5)] bump_conflicts_audits
              list_all_iff bumped_audit_actor)
      qed
    qed
  qed
next
  case (Unassign req e)
  then show ?thesis
    by (simp add: unassignReservation_def Let_def create_audit_fields deleteMany_reservations_def
        split: option.splits)
qed


lemma find_distinct_filter:
  "distinct (map f xs) \<Longrightarrow> find (\<lambda>r. f r = k) xs = Some x \<Longrightarrow> filter (\<lambda>r. f r = k) xs = [x]"
proof (induction xs)
  case Nil
  then show ?case by simp
next
  case (Cons y ys)
  show ?case
  proof (cases "f y = k")
    case True
    with Cons.prems have "x = y" and "k \<notin> f ` set ys" by auto
    then have "filter (\<lambda>r. f r = k) ys = []" by (auto simp: filter_empty_conv)
    with True \<open>x = y\<close> show ?thesis by simp
  next
    case False
    with Cons show ?thesis by simp
  qed
qed

lemma find_conflicts_active:
  "c \<in> set (find_conflicts s e x b st en) \<Longrightarrow> event_not_cancelled s c"
  by (auto simp: find_conflicts_def conflict_where_def split: option.splits)

lemma find_replaced:
  "k \<in> f ` set xs \<Longrightarrow> f r = k \<Longrightarrow>
     find (\<lambda>x. f x = k) (map (\<lambda>y. if f y = k then r else y) xs) = Some r"
  by (induction xs) auto

lemma find_appended:
  "k \<notin> f ` set xs \<Longrightarrow> f r = k \<Longrightarrow> find (\<lambda>x. f x = k) (xs @ [r]) = Some r"
  by (induction xs) auto

lemma upsert_find:
  assumes "upsert_reservation s e l x a b = Inr (r, s')"
  shows "findUnique_reservation s' e = Some r"
proof -
  from upsert_Inr(1) [OF assms] have k: "rs_eventId r = e" by simp
  show ?thesis
    unfolding findUnique_reservation_def upsert_Inr(3) [OF assms]
    using k by (simp add: find_replaced find_appended)
qed

lemma bump_conflicts_event:
  "events s i = Some ev \<Longrightarrow> \<exists>ev'. events (bump_conflicts req e r cs s) i = Some ev'"
  by (simp add: bump_conflicts_fields)




subsection \<open>One row for each event\<close>

lemma upsert_keys:
  assumes "upsert_reservation s e l x a b = Inr (r, s')"
  shows "map rs_eventId (reservations s') =
           (if e \<in> rs_eventId ` set (reservations s) then map rs_eventId (reservations s)
            else map rs_eventId (reservations s) @ [e])"
proof -
  from upsert_Inr(1) [OF assms] have k: "rs_eventId r = e" by simp
  then have "map rs_eventId (map (\<lambda>y. if rs_eventId y = e then r else y) (reservations s))
      = map rs_eventId (reservations s)"
    by (induction "reservations s") (auto simp: o_def)
  with k show ?thesis by (simp add: upsert_Inr(3) [OF assms])
qed

lemma upsert_unique:
  assumes "unique_reservation s" and "upsert_reservation s e l x a b = Inr (r, s')"
  shows "unique_reservation s'"
  using assms(1) by (auto simp: unique_reservation_def upsert_keys [OF assms(2)])

lemma upsert_single:
  assumes "unique_reservation s" and "upsert_reservation s e l x a b = Inr (r, s')"
  shows "filter (\<lambda>y. rs_eventId y = e) (reservations s') = [r]"
  using upsert_unique [OF assms] upsert_find [OF assms(2)]
  unfolding unique_reservation_def findUnique_reservation_def
  by (rule find_distinct_filter)

lemma bump_unique:
  "unique_reservation s \<Longrightarrow> unique_reservation (bump_conflicts req e r cs s)"
  by (simp add: unique_reservation_def bump_conflicts_fields distinct_map_filter)

lemma dndMove_cases:
  obtains (rolled_back) err where "dndMove req body s = (Inl err, s)"
  | (committed) res s' where "dndMove req body s = (Inr res, s')"
      "dndMove_tx req body s = Inr (res, s')"
  by (cases "dndMove_tx req body s") (auto simp: dndMove_def transaction_def)

lemma dndPlace_cases:
  obtains (rolled_back) err where "dndPlace req body s = (Inl err, s)"
  | (committed) res s' where "dndPlace req body s = (Inr res, s')"
      "dndPlace_tx req body s = Inr (res, s')"
proof (cases "dp_startAt body < dp_endAt body")
  case False
  then have "dndPlace req body s = (Inl (ZodError ''endAt must be after startAt''), s)"
    by (simp add: dndPlace_def)
  then show ?thesis by (rule rolled_back)
next
  case True
  then show ?thesis
    by (cases "dndPlace_tx req body s")
      (auto simp: dndPlace_def transaction_def intro: rolled_back committed)
qed

lemma assign_unique:
  assumes "unique_reservation s"
  shows "unique_reservation (snd (assignReservation req e body s))"
proof (cases rule: assignReservation_cases [of req e body s])
  case (rejected err)
  with assms show ?thesis by simp
next
  case (written event hangarId st en r s1)
  from upsert_unique [OF assms written(7)] show ?thesis
    by (simp add: written(8) unique_reservation_def update_event_fields create_audit_fields)
qed

lemma dndMove_tx_unique:
  assumes "unique_reservation s" and "dndMove_tx req body s = Inr (res, s')"
  shows "unique_reservation s'"
    and "filter (\<lambda>y. rs_eventId y = dm_eventId body) (reservations s') = [fst res]"
proof -
  from assms(2) show "unique_reservation s'"
  proof (cases rule: dndMove_tx_Inr)
    case (moved event hangarId s2)
    from upsert_unique [OF bump_unique [OF assms(1)] moved(5)] show ?thesis
      by (simp add: moved(6) unique_reservation_def update_event_fields create_audit_fields)
  qed
  from assms(2) show "filter (\<lambda>y. rs_eventId y = dm_eventId body) (reservations s') = [fst res]"
  proof (cases rule: dndMove_tx_Inr)
    case (moved event hangarId s2)
    from upsert_single [OF bump_unique [OF assms(1)] moved(5)] show ?thesis
      by (simp add: moved(6) update_event_fields create_audit_fields)
  qed
qed

lemma dndPlace_tx_unique:
  assumes "unique_reservation s" and "dndPlace_tx req body s = Inr (res, s')"
  shows "unique_reservation s'"
    and "filter (\<lambda>y. rs_eventId y = dp_eventId body) (reservations s') = [fst res]"
proof -
  have u: "unique_reservation (update_event (bump_conflicts req e r cs s) i f)" for e r cs i f
    using bump_unique [OF assms(1), of req e r cs]
    by (simp add: unique_reservation_def update_event_fields)
  from assms(2) show "unique_reservation s'"
  proof (cases rule: dndPlace_tx_Inr)
    case (placed event hangarId s3)
    from upsert_unique [OF u placed(5)] show ?thesis
      by (simp add: placed(6) unique_reservation_def create_audit_fields)
  qed
  from assms(2) show "filter (\<lambda>y. rs_eventId y = dp_eventId body) (reservations s') = [fst res]"
  proof (cases rule: dndPlace_tx_Inr)
    case (placed event hangarId s3)
    from upsert_single [OF u placed(5)] show ?thesis
      by (simp add: placed(6) create_audit_fields)
  qed
qed

lemma unassign_unique:
  "unique_reservation s \<Longrightarrow> unique_reservation (snd (unassignReservation req e s))"
  by (simp add: unassignReservation_def Let_def deleteMany_reservations_def create_audit_def
      unique_reservation_def distinct_map_filter split: option.splits)

lemma apply_op_unique:
  assumes "unique_reservation s"
  shows "unique_reservation (apply_op op s)"
proof (cases op)
  case (Assign req e body)
  with assign_unique [OF assms] show ?thesis by simp
next
  case (DndMove req body)
  show ?thesis
  proof (cases rule: dndMove_cases [of req body s])
    case (rolled_back err)
    with assms DndMove show ?thesis by simp
  next
    case (committed res s')
    with dndMove_tx_unique(1) [OF assms committed(2)] DndMove show ?thesis by simp
  qed
next
  case (DndPlace req body)
  show ?thesis
  proof (cases rule: dndPlace_cases [of req body s])
    case (rolled_back err)
    with assms DndPlace show ?thesis by simp
  next
    case (committed res s')
    with dndPlace_tx_unique(1) [OF assms committed(2)] DndPlace show ?thesis by simp
  qed
next
  case (Unassign req e)
  with unassign_unique [OF assms] show ?thesis by simp
qed

lemma run_unique: "unique_reservation s \<Longrightarrow> unique_reservation (run ops s)"
  unfolding run_def by (induction ops arbitrary: s) (simp_all add: apply_op_unique)

lemma assign_single:
  assumes "unique_reservation s" and "assignReservation req e body s = (Inr r, s')"
  shows "filter (\<lambda>y. rs_eventId y = e) (reservations s') = [r]"
    and "findUnique_reservation s e \<noteq> None \<Longrightarrow>
           map rs_eventId (reservations s') = map rs_eventId (reservations s)"
    and "rs_standId r = ab_standId body"
proof -
  show "filter (\<lambda>y. rs_eventId y = e) (reservations s') = [r]"
  proof (cases rule: assignReservation_cases [of req e body s])
    case (rejected err)
    with assms(2) show ?thesis by simp
  next
    case (written event hangarId st en r1 s1)
    with assms(2) have "r1 = r" and "reservations s' = reservations s1"
      by (auto simp: update_event_fields create_audit_fields split: if_splits)
    with upsert_single [OF assms(1) written(7)] show ?thesis by simp
  qed
  show "map rs_eventId (reservations s') = map rs_eventId (reservations s)"
    if "findUnique_reservation s e \<noteq> None"
  proof (cases rule: assignReservation_cases [of req e body s])
    case (rejected err)
    with assms(2) show ?thesis by simp
  next
    case (written event hangarId st en r1 s1)
    with assms(2) have "reservations s' = reservations s1"
      by (auto simp: update_event_fields create_audit_fields split: if_splits)
    moreover from that have "e \<in> rs_eventId ` set (reservations s)"
      by (auto simp: findUnique_reservation_def find_None_iff)
    ultimately show ?thesis by (simp add: upsert_keys [OF written(7)])
  qed
  show "rs_standId r = ab_standId body"
  proof (cases rule: assignReservation_cases [of req e body s])
    case (rejected err)
    with assms(2) show ?thesis by simp
  next
    case (written event hangarId st en r1 s1)
    with assms(2) have "r1 = r" by (auto split: if_splits)
    with upsert_Inr(1) [OF written(7)] show ?thesis by simp
  qed
qed

subsection \<open>The placement fields of the events\<close>

lemma pointer_sync_iff:
  "pointer_sync s \<longleftrightarrow>
     (\<forall>r \<in> set (reservations s). \<exists>ev h.
        events s (rs_eventId r) = Some ev \<and> ev_layoutId ev = Some (rs_layoutId r) \<and>
        ev_hangarId ev = Some h \<and> layouts s (rs_layoutId r) = Some h)"
proof -
  have p: "(case events s (rs_eventId r) of
           None \<Rightarrow> False
         | Some ev \<Rightarrow> ev_layoutId ev = Some (rs_layoutId r) \<and> ev_hangarId ev \<noteq> None \<and>
                     ev_hangarId ev = layouts s (rs_layoutId r)) \<longleftrightarrow>
        (\<exists>ev h. events s (rs_eventId r) = Some ev \<and> ev_layoutId ev = Some (rs_layoutId r) \<and>
                ev_hangarId ev = Some h \<and> layouts s (rs_layoutId r) = Some h)" for r
    by (cases "events s (rs_eventId r)") auto
  show ?thesis unfolding pointer_sync_def list_all_iff p ..
qed

lemma pointer_sync_cong:
  assumes "reservations s' = reservations s" "events s' = events s" "layouts s' = layouts s"
  shows "pointer_sync s' = pointer_sync s"
  unfolding pointer_sync_def assms ..

lemma sync_create_audit: "pointer_sync (create_audit s a) = pointer_sync s"
  by (rule pointer_sync_cong) (simp_all add: create_audit_fields)

lemma sync_place:
  assumes sync: "pointer_sync s0"
    and rows: "reservations s2 =
        (if e \<in> rs_eventId ` set (reservations s0)
         then map (\<lambda>y. if rs_eventId y = e then r else y) (reservations s0)
         else reservations s0 @ [r])"
    and r: "rs_eventId r = e" "rs_layoutId r = l"
    and la: "layouts s2 = layouts s0" "layouts s0 l = Some h"
    and ev: "events s2 e = Some ev'" "ev_layoutId ev' = Some l" "ev_hangarId ev' = Some h"
    and others: "\<And>i. i \<noteq> e \<Longrightarrow> events s2 i = events s0 i"
  shows "pointer_sync s2"
  unfolding pointer_sync_iff
proof
  fix y assume y: "y \<in> set (reservations s2)"
  show "\<exists>ev h. events s2 (rs_eventId y) = Some ev \<and> ev_layoutId ev = Some (rs_layoutId y) \<and>
        ev_hangarId ev = Some h \<and> layouts s2 (rs_layoutId y) = Some h"
  proof (cases "rs_eventId y = e")
    case True
    with y rows have "y = r" by (auto split: if_splits)
    with r la ev show ?thesis by simp
  next
    case False
    with y rows r have "y \<in> set (reservations s0)" by (auto split: if_splits)
    with sync obtain ev0 h0 where "events s0 (rs_eventId y) = Some ev0"
      "ev_layoutId ev0 = Some (rs_layoutId y)" "ev_hangarId ev0 = Some h0"
      "layouts s0 (rs_layoutId y) = Some h0"
      unfolding pointer_sync_iff by blast
    with False others [of "rs_eventId y"] la(1) show ?thesis by simp
  qed
qed

lemma sync_bump:
  assumes "pointer_sync s"
  shows "pointer_sync (bump_conflicts req e r cs s)"
  unfolding pointer_sync_iff
proof
  fix y assume "y \<in> set (reservations (bump_conflicts req e r cs s))"
  then have y: "y \<in> set (reservations s)" and keep: "rs_eventId y \<notin> rs_eventId ` set cs"
    by (simp_all add: bump_conflicts_fields)
  from assms y obtain ev h where "events s (rs_eventId y) = Some ev"
    "ev_layoutId ev = Some (rs_layoutId y)" "ev_hangarId ev = Some h"
    "layouts s (rs_layoutId y) = Some h"
    unfolding pointer_sync_iff by blast
  with keep show "\<exists>ev h. events (bump_conflicts req e r cs s) (rs_eventId y) = Some ev \<and>
      ev_layoutId ev = Some (rs_layoutId y) \<and> ev_hangarId ev = Some h \<and>
      layouts (bump_conflicts req e r cs s) (rs_layoutId y) = Some h"
    by (simp add: bump_conflicts_fields)
qed

lemma sync_filter:
  assumes "pointer_sync s" and "reservations s' = filter P (reservations s)"
    and "events s' = events s" and "layouts s' = layouts s"
  shows "pointer_sync s'"
  using assms by (auto simp: pointer_sync_iff)

lemma assign_sync:
  assumes "pointer_sync s"
  shows "pointer_sync (snd (assignReservation req e body s))"
proof (cases rule: assignReservation_cases [of req e body s])
  case (rejected err)
  with assms show ?thesis by simp
next
  case (written event hangarId st en r s1)
  let ?f = "\<lambda>ev. ev\<lparr>ev_layoutId := Some (ab_layoutId body), ev_hangarId := Some hangarId\<rparr>"
  have "pointer_sync (update_event s1 e ?f)"
  proof (rule sync_place [OF assms, where e = e and r = r and l = "ab_layoutId body"
        and h = hangarId and ev' = "?f event"])
    show "reservations (update_event s1 e ?f) =
        (if e \<in> rs_eventId ` set (reservations s)
         then map (\<lambda>y. if rs_eventId y = e then r else y) (reservations s)
         else reservations s @ [r])"
      by (simp add: update_event_fields upsert_Inr(3) [OF written(7)])
    show "rs_eventId r = e" "rs_layoutId r = ab_layoutId body"
      using upsert_Inr(1) [OF written(7)] by simp_all
    show "layouts (update_event s1 e ?f) = layouts s"
      by (simp add: update_event_fields upsert_frame(2) [OF written(7)])
    show "layouts s (ab_layoutId body) = Some hangarId" by (rule written(6))
    show "events (update_event s1 e ?f) e = Some (?f event)"
      by (simp add: update_event_fields upsert_frame(1) [OF written(7)] written(1))
    show "ev_layoutId (?f event) = Some (ab_layoutId body)"
      "ev_hangarId (?f event) = Some hangarId" by simp_all
    show "events (update_event s1 e ?f) i = events s i" if "i \<noteq> e" for i
      using that by (simp add: update_event_fields upsert_frame(1) [OF written(7)])
  qed
  then show ?thesis
    by (simp add: written(8) sync_create_audit)
qed

lemma dndMove_tx_sync:
  assumes "pointer_sync s" and "dndMove_tx req body s = Inr (res, s')"
  shows "pointer_sync s'"
  using assms(2)
proof (cases rule: dndMove_tx_Inr)
  case (moved event hangarId s2)
  let ?f = "\<lambda>ev. ev\<lparr>ev_layoutId := Some (dm_layoutId body), ev_hangarId := Some hangarId\<rparr>"
  let ?s1 = "bump_conflicts req (dm_eventId body) (dm_changeReason body)
      (find_conflicts s (dm_eventId body) (dm_standId body) (dm_bumpedEventId body)
         (ev_startAt event) (ev_endAt event)) s"
  from bump_conflicts_event [OF moved(1)] obtain ev1 where
    ev1: "events ?s1 (dm_eventId body) = Some ev1" by blast
  have "pointer_sync (update_event s2 (dm_eventId body) ?f)"
  proof (rule sync_place [OF sync_bump [OF assms(1)], where e = "dm_eventId body"
        and r = "fst res" and l = "dm_layoutId body" and h = hangarId and ev' = "?f ev1"])
    show "reservations (update_event s2 (dm_eventId body) ?f) =
        (if dm_eventId body \<in> rs_eventId ` set (reservations ?s1)
         then map (\<lambda>y. if rs_eventId y = dm_eventId body then fst res else y) (reservations ?s1)
         else reservations ?s1 @ [fst res])"
      by (simp only: update_event_fields upsert_Inr(3) [OF moved(5)])
    show "rs_eventId (fst res) = dm_eventId body" "rs_layoutId (fst res) = dm_layoutId body"
      using upsert_Inr(1) [OF moved(5)] by simp_all
    show "layouts (update_event s2 (dm_eventId body) ?f) = layouts ?s1"
      by (simp only: update_event_fields upsert_frame(2) [OF moved(5)])
    show "layouts ?s1 (dm_layoutId body) = Some hangarId"
      by (simp add: bump_conflicts_fields moved(2))
    show "events (update_event s2 (dm_eventId body) ?f) (dm_eventId body) = Some (?f ev1)"
      by (simp add: update_event_fields upsert_frame(1) [OF moved(5)] ev1)
    show "ev_layoutId (?f ev1) = Some (dm_layoutId body)"
      "ev_hangarId (?f ev1) = Some hangarId" by simp_all
    show "events (update_event s2 (dm_eventId body) ?f) i = events ?s1 i"
      if "i \<noteq> dm_eventId body" for i
      using that by (simp add: update_event_fields upsert_frame(1) [OF moved(5)])
  qed
  then show ?thesis
    by (simp add: moved(6) sync_create_audit)
qed

lemma dndPlace_tx_sync:
  assumes "pointer_sync s" and "dndPlace_tx req body s = Inr (res, s')"
  shows "pointer_sync s'"
  using assms(2)
proof (cases rule: dndPlace_tx_Inr)
  case (placed event hangarId s3)
  let ?f = "\<lambda>ev. ev\<lparr>ev_startAt := dp_startAt body, ev_endAt := dp_endAt body,
      ev_layoutId := Some (dp_layoutId body), ev_hangarId := Some hangarId\<rparr>"
  let ?s1 = "bump_conflicts req (dp_eventId body) (dp_changeReason body)
      (find_conflicts s (dp_eventId body) (dp_standId body) (dp_bumpedEventId body)
         (dp_startAt body) (dp_endAt body)) s"
  from bump_conflicts_event [OF placed(1)] obtain ev1 where
    ev1: "events ?s1 (dp_eventId body) = Some ev1" by blast
  have "pointer_sync s3"
  proof (rule sync_place [OF sync_bump [OF assms(1)], where e = "dp_eventId body"
        and r = "fst res" and l = "dp_layoutId body" and h = hangarId and ev' = "?f ev1"])
    show "reservations s3 =
        (if dp_eventId body \<in> rs_eventId ` set (reservations ?s1)
         then map (\<lambda>y. if rs_eventId y = dp_eventId body then fst res else y) (reservations ?s1)
         else reservations ?s1 @ [fst res])"
      using upsert_Inr(3) [OF placed(5)] by (simp only: update_event_fields)
    show "rs_eventId (fst res) = dp_eventId body" "rs_layoutId (fst res) = dp_layoutId body"
      using upsert_Inr(1) [OF placed(5)] by simp_all
    show "layouts s3 = layouts ?s1"
      using upsert_frame(2) [OF placed(5)] by (simp only: update_event_fields)
    show "layouts ?s1 (dp_layoutId body) = Some hangarId"
      by (simp add: bump_conflicts_fields placed(2))
    show "events s3 (dp_eventId body) = Some (?f ev1)"
      by (simp add: upsert_frame(1) [OF placed(5)] update_event_fields ev1)
    show "ev_layoutId (?f ev1) = Some (dp_layoutId body)"
      "ev_hangarId (?f ev1) = Some hangarId" by simp_all
    show "events s3 i = events ?s1 i" if "i \<noteq> dp_eventId body" for i
      using that by (simp add: upsert_frame(1) [OF placed(5)] update_event_fields)
  qed
  then show ?thesis
    by (simp add: placed(6) sync_create_audit)
qed

lemma unassign_events: "events (snd (unassignReservation req e s)) = events s"
  by (simp add: unassignReservation_def Let_def deleteMany_reservations_def create_audit_def
      split: option.splits)

lemma unassign_gone: "findUnique_reservation (snd (unassignReservation req e s)) e = None"
  by (simp add: unassignReservation_def Let_def deleteMany_reservations_def create_audit_def
      findUnique_reservation_def find_None_iff split: option.splits)

lemma unassign_sync:
  assumes "pointer_sync s"
  shows "pointer_sync (snd (unassignReservation req e s))"
proof (cases "findUnique_reservation s e")
  case None
  with assms show ?thesis by (simp add: unassignReservation_def)
next
  case (Some ex)
  show ?thesis
    by (rule sync_filter [OF assms, where P = "\<lambda>r. rs_eventId r \<noteq> e"])
      (simp_all add: unassignReservation_def Let_def deleteMany_reservations_def
        create_audit_def Some)
qed

lemma apply_op_sync:
  assumes "pointer_sync s"
  shows "pointer_sync (apply_op op s)"
proof (cases op)
  case (Assign req e body)
  with assign_sync [OF assms] show ?thesis by simp
next
  case (DndMove req body)
  show ?thesis
  proof (cases rule: dndMove_cases [of req body s])
    case (rolled_back err)
    with assms DndMove show ?thesis by simp
  next
    case (committed res s')
    with dndMove_tx_sync [OF assms committed(2)] DndMove show ?thesis by simp
  qed
next
  case (DndPlace req body)
  show ?thesis
  proof (cases rule: dndPlace_cases [of req body s])
    case (rolled_back err)
    with assms DndPlace show ?thesis by simp
  next
    case (committed res s')
    with dndPlace_tx_sync [OF assms committed(2)] DndPlace show ?thesis by simp
  qed
next
  case (Unassign req e)
  with unassign_sync [OF assms] show ?thesis by simp
qed

lemma run_sync: "pointer_sync s \<Longrightarrow> pointer_sync (run ops s)"
  unfolding run_def by (induction ops arbitrary: s) (simp_all add: apply_op_sync)

subsection \<open>Overlaps on a stand\<close>

lemma non_overlap_iff:
  "non_overlap s \<longleftrightarrow>
     (\<forall>a \<in> set (reservations s). \<forall>b \<in> set (reservations s).
        rs_eventId a \<noteq> rs_eventId b \<longrightarrow> rs_standId a = rs_standId b \<longrightarrow>
        event_not_cancelled s a \<longrightarrow> event_not_cancelled s b \<longrightarrow> \<not> windows_overlap a b)"
  unfolding non_overlap_def list_all_iff by blast

lemmas non_overlapD = non_overlap_iff [THEN iffD1, rule_format]

lemma event_not_cancelled_cong:
  "events s' (rs_eventId y) = events s (rs_eventId y) \<Longrightarrow>
     event_not_cancelled s' y = event_not_cancelled s y"
  by (simp add: event_not_cancelled_def)

lemma non_overlap_sub:
  assumes "non_overlap s"
    and "set (reservations s') \<subseteq> set (reservations s)"
    and "\<And>y. y \<in> set (reservations s') \<Longrightarrow> events s' (rs_eventId y) = events s (rs_eventId y)"
  shows "non_overlap s'"
  unfolding non_overlap_iff
proof (intro ballI impI)
  fix a b
  assume m: "a \<in> set (reservations s')" "b \<in> set (reservations s')"
    and h: "rs_eventId a \<noteq> rs_eventId b" "rs_standId a = rs_standId b"
      "event_not_cancelled s' a" "event_not_cancelled s' b"
  have "event_not_cancelled s' a = event_not_cancelled s a"
    by (rule event_not_cancelled_cong) (rule assms(3) [OF m(1)])
  moreover have "event_not_cancelled s' b = event_not_cancelled s b"
    by (rule event_not_cancelled_cong) (rule assms(3) [OF m(2)])
  ultimately have "event_not_cancelled s' a = event_not_cancelled s a"
    "event_not_cancelled s' b = event_not_cancelled s b"
    by simp_all
  with h have act: "event_not_cancelled s a" "event_not_cancelled s b" by simp_all
  from m assms(2) have old: "a \<in> set (reservations s)" "b \<in> set (reservations s)" by auto
  from assms(1) old h(1,2) act show "\<not> windows_overlap a b" by (rule non_overlapD)
qed

lemma non_overlap_place:
  assumes inv: "non_overlap s0"
    and rows: "reservations s2 =
        (if e \<in> rs_eventId ` set (reservations s0)
         then map (\<lambda>y. if rs_eventId y = e then r else y) (reservations s0)
         else reservations s0 @ [r])"
    and r: "rs_eventId r = e" "rs_standId r = x" "rs_startAt r = st" "rs_endAt r = en"
    and free: "\<And>y. y \<in> set (reservations s0) \<Longrightarrow> \<not> conflict_where s0 x (EventIdNot e) st en y"
    and others: "\<And>i. i \<noteq> e \<Longrightarrow> events s2 i = events s0 i"
  shows "non_overlap s2"
  unfolding non_overlap_iff
proof (intro ballI impI)
  fix a b
  assume m: "a \<in> set (reservations s2)" "b \<in> set (reservations s2)"
    and h: "rs_eventId a \<noteq> rs_eventId b" "rs_standId a = rs_standId b"
      "event_not_cancelled s2 a" "event_not_cancelled s2 b"
  have old: "y = r \<or> (y \<in> set (reservations s0) \<and> rs_eventId y \<noteq> e)"
    if "y \<in> set (reservations s2)" for y
  proof (cases "e \<in> rs_eventId ` set (reservations s0)")
    case True
    with that rows show ?thesis by auto
  next
    case False
    with that rows have "y = r \<or> y \<in> set (reservations s0)" by auto
    moreover have "rs_eventId y \<noteq> e" if "y \<in> set (reservations s0)"
      using that False by (metis imageI)
    ultimately show ?thesis by blast
  qed
  have act: "event_not_cancelled s0 y" if "rs_eventId y \<noteq> e" "event_not_cancelled s2 y" for y
    using that others [of "rs_eventId y"] by (simp add: event_not_cancelled_def)
  have clear: "\<not> (rs_startAt y < en \<and> st < rs_endAt y)"
    if "y \<in> set (reservations s0)" "rs_eventId y \<noteq> e" "rs_standId y = x"
      "event_not_cancelled s2 y" for y
    using free [OF that(1)] act [OF that(2,4)] that(2,3) by (simp add: conflict_where_def)
  from old [OF m(1)] old [OF m(2)] show "\<not> windows_overlap a b"
  proof (elim disjE conjE)
    assume "a = r" "b = r"
    with h(1) show ?thesis by simp
  next
    assume "a = r" and b: "b \<in> set (reservations s0)" "rs_eventId b \<noteq> e"
    with clear [OF b] h r show ?thesis by (auto simp: windows_overlap_def)
  next
    assume a: "a \<in> set (reservations s0)" "rs_eventId a \<noteq> e" and "b = r"
    with clear [OF a] h r show ?thesis by (auto simp: windows_overlap_def)
  next
    assume a: "a \<in> set (reservations s0)" "rs_eventId a \<noteq> e"
      and b: "b \<in> set (reservations s0)" "rs_eventId b \<noteq> e"
    from inv a(1) b(1) h(1,2) act [OF a(2) h(3)] act [OF b(2) h(4)]
    show ?thesis by (rule non_overlapD)
  qed
qed

lemma non_overlap_cong:
  assumes "reservations s' = reservations s" "events s' = events s"
  shows "non_overlap s' = non_overlap s"
  unfolding non_overlap_def event_not_cancelled_def assms ..

lemma non_overlap_create_audit: "non_overlap (create_audit s a) = non_overlap s"
  by (rule non_overlap_cong) (simp_all add: create_audit_fields)

lemma non_overlap_bump:
  assumes "non_overlap s"
  shows "non_overlap (bump_conflicts req e r cs s)"
  by (rule non_overlap_sub [OF assms]) (auto simp: bump_conflicts_fields)

lemma bump_free:
  assumes "y \<in> set (reservations (bump_conflicts req e r (find_conflicts s e x None st en) s))"
  shows "\<not> conflict_where (bump_conflicts req e r (find_conflicts s e x None st en) s) x
           (EventIdNot e) st en y"
proof
  let ?cs = "find_conflicts s e x None st en"
  assume c: "conflict_where (bump_conflicts req e r ?cs s) x (EventIdNot e) st en y"
  from assms have y: "y \<in> set (reservations s)" and keep: "rs_eventId y \<notin> rs_eventId ` set ?cs"
    by (simp_all add: bump_conflicts_fields)
  from keep have "events (bump_conflicts req e r ?cs s) (rs_eventId y) = events s (rs_eventId y)"
    by (simp add: bump_conflicts_fields)
  with c have "conflict_where s x (EventIdNot e) st en y"
    by (simp add: conflict_where_def event_not_cancelled_def)
  with y have "y \<in> set ?cs" by (simp add: find_conflicts_def)
  with keep show False by blast
qed

lemma assign_non_overlap:
  assumes "non_overlap s"
  shows "non_overlap (snd (assignReservation req e body s))"
proof (cases rule: assignReservation_cases [of req e body s])
  case (rejected err)
  with assms show ?thesis by simp
next
  case (written event hangarId st en r s1)
  let ?f = "\<lambda>ev. ev\<lparr>ev_layoutId := Some (ab_layoutId body), ev_hangarId := Some hangarId\<rparr>"
  have "non_overlap (update_event s1 e ?f)"
  proof (rule non_overlap_place [OF assms, where e = e and r = r and x = "ab_standId body"
        and st = st and en = en])
    show "reservations (update_event s1 e ?f) =
        (if e \<in> rs_eventId ` set (reservations s)
         then map (\<lambda>y. if rs_eventId y = e then r else y) (reservations s)
         else reservations s @ [r])"
      by (simp add: update_event_fields upsert_Inr(3) [OF written(7)])
    show "rs_eventId r = e" "rs_standId r = ab_standId body" "rs_startAt r = st" "rs_endAt r = en"
      using upsert_Inr(1) [OF written(7)] by simp_all
    show "\<not> conflict_where s (ab_standId body) (EventIdNot e) st en y"
      if "y \<in> set (reservations s)" for y
      using written(5) that by (simp add: findFirst_conflict_def find_None_iff)
    show "events (update_event s1 e ?f) i = events s i" if "i \<noteq> e" for i
      using that by (simp add: update_event_fields upsert_frame(1) [OF written(7)])
  qed
  then show ?thesis by (simp add: written(8) non_overlap_create_audit)
qed

lemma dndMove_tx_non_overlap:
  assumes "non_overlap s" and "dm_bumpedEventId body = None"
    and "dndMove_tx req body s = Inr (res, s')"
  shows "non_overlap s'"
  using assms(3)
proof (cases rule: dndMove_tx_Inr)
  case (moved event hangarId s2)
  let ?f = "\<lambda>ev. ev\<lparr>ev_layoutId := Some (dm_layoutId body), ev_hangarId := Some hangarId\<rparr>"
  let ?cs = "find_conflicts s (dm_eventId body) (dm_standId body) None
      (ev_startAt event) (ev_endAt event)"
  let ?s1 = "bump_conflicts req (dm_eventId body) (dm_changeReason body) ?cs s"
  note up = moved(5) [unfolded assms(2)]
  have "non_overlap (update_event s2 (dm_eventId body) ?f)"
  proof (rule non_overlap_place [OF non_overlap_bump [OF assms(1)], where e = "dm_eventId body"
        and r = "fst res" and x = "dm_standId body" and st = "ev_startAt event"
        and en = "ev_endAt event"])
    show "reservations (update_event s2 (dm_eventId body) ?f) =
        (if dm_eventId body \<in> rs_eventId ` set (reservations ?s1)
         then map (\<lambda>y. if rs_eventId y = dm_eventId body then fst res else y) (reservations ?s1)
         else reservations ?s1 @ [fst res])"
      by (simp only: update_event_fields upsert_Inr(3) [OF up])
    show "rs_eventId (fst res) = dm_eventId body" "rs_standId (fst res) = dm_standId body"
      "rs_startAt (fst res) = ev_startAt event" "rs_endAt (fst res) = ev_endAt event"
      using upsert_Inr(1) [OF up] by simp_all
    show "\<not> conflict_where ?s1 (dm_standId body) (EventIdNot (dm_eventId body))
            (ev_startAt event) (ev_endAt event) y"
      if "y \<in> set (reservations ?s1)" for y
      using that by (rule bump_free)
    show "events (update_event s2 (dm_eventId body) ?f) i = events ?s1 i"
      if "i \<noteq> dm_eventId body" for i
      using that by (simp add: update_event_fields upsert_frame(1) [OF up])
  qed
  then show ?thesis by (simp add: moved(6) non_overlap_create_audit)
qed

lemma dndPlace_tx_non_overlap:
  assumes "non_overlap s" and "dp_bumpedEventId body = None"
    and "dndPlace_tx req body s = Inr (res, s')"
  shows "non_overlap s'"
  using assms(3)
proof (cases rule: dndPlace_tx_Inr)
  case (placed event hangarId s3)
  let ?cs = "find_conflicts s (dp_eventId body) (dp_standId body) None
      (dp_startAt body) (dp_endAt body)"
  let ?s1 = "bump_conflicts req (dp_eventId body) (dp_changeReason body) ?cs s"
  note up = placed(5) [unfolded assms(2)]
  have "non_overlap s3"
  proof (rule non_overlap_place [OF non_overlap_bump [OF assms(1)], where e = "dp_eventId body"
        and r = "fst res" and x = "dp_standId body" and st = "dp_startAt body"
        and en = "dp_endAt body"])
    show "reservations s3 =
        (if dp_eventId body \<in> rs_eventId ` set (reservations ?s1)
         then map (\<lambda>y. if rs_eventId y = dp_eventId body then fst res else y) (reservations ?s1)
         else reservations ?s1 @ [fst res])"
      using upsert_Inr(3) [OF up] by (simp only: update_event_fields)
    show "rs_eventId (fst res) = dp_eventId body" "rs_standId (fst res) = dp_standId body"
      "rs_startAt (fst res) = dp_startAt body" "rs_endAt (fst res) = dp_endAt body"
      using upsert_Inr(1) [OF up] by simp_all
    show "\<not> conflict_where ?s1 (dp_standId body) (EventIdNot (dp_eventId body))
            (dp_startAt body) (dp_endAt body) y"
      if "y \<in> set (reservations ?s1)" for y
      using that by (rule bump_free)
    show "events s3 i = events ?s1 i" if "i \<noteq> dp_eventId body" for i
      using that by (simp add: upsert_frame(1) [OF up] update_event_fields)
  qed
  then show ?thesis by (simp add: placed(6) non_overlap_create_audit)
qed

lemma unassign_non_overlap:
  assumes "non_overlap s"
  shows "non_overlap (snd (unassignReservation req e s))"
  by (rule non_overlap_sub [OF assms])
    (auto simp: unassignReservation_def Let_def deleteMany_reservations_def create_audit_def
      split: option.splits)

text \<open>Without \<^verbatim>\<open>bumpedEventId\<close> every request keeps the reservations of one stand apart.\<close>

lemma apply_op_non_overlap:
  assumes "non_overlap s" and "op_bumpedEventId op = None"
  shows "non_overlap (apply_op op s)"
proof (cases op)
  case (Assign req e body)
  with assign_non_overlap [OF assms(1)] show ?thesis by simp
next
  case (DndMove req body)
  show ?thesis
  proof (cases rule: dndMove_cases [of req body s])
    case (rolled_back err)
    with assms DndMove show ?thesis by simp
  next
    case (committed res s')
    with dndMove_tx_non_overlap [OF assms(1) _ committed(2)] assms(2) DndMove
    show ?thesis by simp
  qed
next
  case (DndPlace req body)
  show ?thesis
  proof (cases rule: dndPlace_cases [of req body s])
    case (rolled_back err)
    with assms DndPlace show ?thesis by simp
  next
    case (committed res s')
    with dndPlace_tx_non_overlap [OF assms(1) _ committed(2)] assms(2) DndPlace
    show ?thesis by simp
  qed
next
  case (Unassign req e)
  with unassign_non_overlap [OF assms(1)] show ?thesis by simp
qed

lemma run_non_overlap:
  "non_overlap s \<Longrightarrow> list_all (\<lambda>op. op_bumpedEventId op = None) ops \<Longrightarrow>
     non_overlap (run ops s)"
  unfolding run_def by (induction ops arbitrary: s) (simp_all add: apply_op_non_overlap)

subsection \<open>Failures and the change reason of the assign route\<close>

lemma dndMove_atomic: "dndMove req body s = (Inl err, s') \<Longrightarrow> s' = s"
  by (auto simp: dndMove_def transaction_def split: sum.splits)

text \<open>The assign route leaves the database as it was on every failure but the missing
  change reason.\<close>

lemma assign_failure_unchanged:
  assumes "assignReservation req e body s = (Inl err, s')"
    and "err \<noteq> BadRequest ''changeReason is required when changing reservation''"
  shows "s' = s"
proof (cases rule: assignReservation_cases [of req e body s])
  case (rejected err')
  with assms(1) show ?thesis by simp
next
  case (written event hangarId st en r s1)
  with assms show ?thesis by (auto split: if_splits)
qed

text \<open>A first assignment without a change reason never succeeds; a save of the values
  the reservation already has succeeds without one (here for \<open>E\<close> on stand \<open>X\<close>).\<close>

lemma first_assignment_needs_reason:
  assumes "findUnique_reservation s e = None" and "ab_changeReason body = None"
  shows "\<exists>err. fst (assignReservation req e body s) = Inl err"
proof (cases rule: assignReservation_cases [of req e body s])
  case (rejected err)
  then show ?thesis by simp
next
  case (written event hangarId st en r s1)
  with assms show ?thesis by (simp add: changed_def)
qed

lemma same_values_need_no_reason:
  "fst (assignReservation example_request ''E'' (example_assign ''L'' ''X'' 0 10 None)
          (example_placed [(''E'', ''X'', 0, 10)])) = Inr (example_row ''E'' ''X'' 0 10)"
  by (simp add: example_defs route_defs Let_def)

subsection \<open>Events displaced by a bump\<close>

lemma find_other_replaced:
  "f r = k \<Longrightarrow> k' \<noteq> k \<Longrightarrow>
     find (\<lambda>x. f x = k') (map (\<lambda>y. if f y = k then r else y) xs) = find (\<lambda>x. f x = k') xs"
  by (induction xs) auto

lemma find_other_appended:
  "f r = k \<Longrightarrow> k' \<noteq> k \<Longrightarrow> find (\<lambda>x. f x = k') (xs @ [r]) = find (\<lambda>x. f x = k') xs"
  by (induction xs) auto

lemma upsert_other:
  assumes "upsert_reservation s e l x a b = Inr (r, s')" and "e' \<noteq> e"
  shows "findUnique_reservation s' e' = findUnique_reservation s e'"
proof -
  from upsert_Inr(1) [OF assms(1)] have k: "rs_eventId r = e" by simp
  show ?thesis
    unfolding findUnique_reservation_def upsert_Inr(3) [OF assms(1)]
    using k assms(2) by (simp add: find_other_replaced find_other_appended)
qed



lemma bump_conflicts_gone:
  "b \<in> rs_eventId ` set cs \<Longrightarrow> findUnique_reservation (bump_conflicts req e r cs s) b = None"
  by (auto simp: findUnique_reservation_def find_None_iff bump_conflicts_fields)

lemma dndMove_tx_bumped:
  assumes "dndMove_tx req body s = Inr (res, s')"
    and "b \<in> set (snd res)" and "b \<noteq> dm_eventId body"
  shows "findUnique_reservation s' b = None"
    and "\<exists>ev. events s b = Some ev \<and>
           events s' b = Some (ev\<lparr>ev_hangarId := None, ev_layoutId := None, ev_status := DRAFT\<rparr>)"
proof -
  from assms(1) show "findUnique_reservation s' b = None"
  proof (cases rule: dndMove_tx_Inr)
    case (moved event hangarId s2)
    from assms(2) moved(4) have "b \<in> rs_eventId ` set (find_conflicts s (dm_eventId body)
        (dm_standId body) (dm_bumpedEventId body) (ev_startAt event) (ev_endAt event))"
      by simp
    from bump_conflicts_gone [OF this] upsert_other [OF moved(5) assms(3)]
    show ?thesis
      by (simp add: moved(6) findUnique_reservation_def create_audit_fields update_event_fields)
  qed
  from assms(1) show "\<exists>ev. events s b = Some ev \<and>
           events s' b = Some (ev\<lparr>ev_hangarId := None, ev_layoutId := None, ev_status := DRAFT\<rparr>)"
  proof (cases rule: dndMove_tx_Inr)
    case (moved event hangarId s2)
    from assms(2) moved(4) have mem: "b \<in> rs_eventId ` set (find_conflicts s (dm_eventId body)
        (dm_standId body) (dm_bumpedEventId body) (ev_startAt event) (ev_endAt event))"
      by simp
    then obtain c where "c \<in> set (find_conflicts s (dm_eventId body)
        (dm_standId body) (dm_bumpedEventId body) (ev_startAt event) (ev_endAt event))"
      and c: "rs_eventId c = b" by auto
    then have "event_not_cancelled s c" by (simp add: find_conflicts_active)
    with c obtain ev where ev: "events s b = Some ev"
      by (auto simp: event_not_cancelled_def split: option.splits)
    with mem assms(3) show ?thesis
      by (simp add: moved(6) create_audit_fields update_event_fields
          upsert_frame(1) [OF moved(5)] bump_conflicts_fields)
  qed
qed

lemma dndPlace_tx_bumped:
  assumes "dndPlace_tx req body s = Inr (res, s')"
    and "b \<in> set (snd res)" and "b \<noteq> dp_eventId body"
  shows "findUnique_reservation s' b = None"
    and "\<exists>ev. events s b = Some ev \<and>
           events s' b = Some (ev\<lparr>ev_hangarId := None, ev_layoutId := None, ev_status := DRAFT\<rparr>)"
proof -
  from assms(1) show "findUnique_reservation s' b = None"
  proof (cases rule: dndPlace_tx_Inr)
    case (placed event hangarId s3)
    from assms(2) placed(4) have "b \<in> rs_eventId ` set (find_conflicts s (dp_eventId body)
        (dp_standId body) (dp_bumpedEventId body) (dp_startAt body) (dp_endAt body))"
      by simp
    from bump_conflicts_gone [OF this] upsert_other [OF placed(5) assms(3)]
    show ?thesis
      by (simp add: placed(6) findUnique_reservation_def create_audit_fields update_event_fields)
  qed
  from assms(1) show "\<exists>ev. events s b = Some ev \<and>
           events s' b = Some (ev\<lparr>ev_hangarId := None, ev_layoutId := None, ev_status := DRAFT\<rparr>)"
  proof (cases rule: dndPlace_tx_Inr)
    case (placed event hangarId s3)
    from assms(2) placed(4) have mem: "b \<in> rs_eventId ` set (find_conflicts s (dp_eventId body)
        (dp_standId body) (dp_bumpedEventId body) (dp_startAt body) (dp_endAt body))"
      by simp
    then obtain c where "c \<in> set (find_conflicts s (dp_eventId body)
        (dp_standId body) (dp_bumpedEventId body) (dp_startAt body) (dp_endAt body))"
      and c: "rs_eventId c = b" by auto
    then have "event_not_cancelled s c" by (simp add: find_conflicts_active)
    with c obtain ev where ev: "events s b = Some ev"
      by (auto simp: event_not_cancelled_def split: option.splits)
    with mem assms(3) show ?thesis
      by (simp add: placed(6) create_audit_fields update_event_fields
          upsert_frame(1) [OF placed(5)] bump_conflicts_fields)
  qed
qed

section \<open>The claims\<close>

text \<open>
  Claim C5. The conflict check reports an existing reservation on the target stand for a
  target window exactly when the reservation starts before the window ends, ends after the
  window starts, its event is not cancelled and its event is not the excluded one. So a
  reservation that ends when the window starts (or starts when it ends) is no conflict,
  and the reservation of a cancelled event never is one.
\<close>

theorem conflict_check_half_open:
  "(findFirst_conflict s standId eventId ws we = None \<longleftrightarrow>
      \<not> (\<exists>r \<in> set (reservations s). rs_standId r = standId \<and> spec_conflict s ws we (Some eventId) r)) \<and>
   (findFirst_conflict s standId eventId ws we = Some c \<longrightarrow>
      c \<in> set (reservations s) \<and> rs_standId c = standId \<and> spec_conflict s ws we (Some eventId) c) \<and>
   (r \<in> set (find_conflicts s eventId standId None ws we) \<longleftrightarrow>
      r \<in> set (reservations s) \<and> rs_standId r = standId \<and> spec_conflict s ws we (Some eventId) r) \<and>
   (rs_endAt r = ws \<or> rs_startAt r = we \<longrightarrow> \<not> conflict_where s standId f ws we r) \<and>
   (map_option ev_status (events s (rs_eventId r)) = Some CANCELLED \<longrightarrow>
      \<not> conflict_where s standId f ws we r)"
proof (intro conjI)
  show "findFirst_conflict s standId eventId ws we = None \<longleftrightarrow>
      \<not> (\<exists>r \<in> set (reservations s). rs_standId r = standId \<and> spec_conflict s ws we (Some eventId) r)"
    by (auto simp: findFirst_conflict_def find_None_iff conflict_where_spec)
  show "findFirst_conflict s standId eventId ws we = Some c \<longrightarrow>
      c \<in> set (reservations s) \<and> rs_standId c = standId \<and> spec_conflict s ws we (Some eventId) c"
    by (auto simp: findFirst_conflict_def find_Some_iff conflict_where_spec)
  show "r \<in> set (find_conflicts s eventId standId None ws we) \<longleftrightarrow>
      r \<in> set (reservations s) \<and> rs_standId r = standId \<and> spec_conflict s ws we (Some eventId) r"
    by (auto simp: find_conflicts_def conflict_where_spec)
  show "rs_endAt r = ws \<or> rs_startAt r = we \<longrightarrow> \<not> conflict_where s standId f ws we r"
    by (auto simp: conflict_where_def)
  show "map_option ev_status (events s (rs_eventId r)) = Some CANCELLED \<longrightarrow>
      \<not> conflict_where s standId f ws we r"
    by (auto simp: conflict_where_def event_not_cancelled_def split: option.splits)
qed

text \<open>On the example database with \<open>C\<close> on stand \<open>X\<close> for \<open>[0, 10)\<close>: the window
  \<open>[10, 20)\<close> is free for \<open>E\<close>, the window \<open>[9, 20)\<close> is not.\<close>

theorem conflict_check_half_open_witness:
  "findFirst_conflict (example_placed [(''C'', ''X'', 0, 10)]) ''X'' ''E'' 10 20 = None \<and>
   findFirst_conflict (example_placed [(''C'', ''X'', 0, 10)]) ''X'' ''E'' 9 20
     = Some (example_row ''C'' ''X'' 0 10) \<and>
   spec_conflict (example_placed [(''C'', ''X'', 0, 10)]) 9 20 (Some ''E'')
     (example_row ''C'' ''X'' 0 10) \<and>
   \<not> conflict_where (example_placed [(''C'', ''X'', 0, 10)]) ''X'' (EventIdNot ''E'') 10 20
       (example_row ''C'' ''X'' 0 10)"
  using conflict_check_half_open [of "example_placed [(''C'', ''X'', 0, 10)]" "''X''" "''E''" 9 20
      "example_row ''C'' ''X'' 0 10" "example_row ''C'' ''X'' 0 10" "EventIdNot ''E''"]
    conflict_check_half_open [of "example_placed [(''C'', ''X'', 0, 10)]" "''X''" "''E''" 10 20
      "example_row ''C'' ''X'' 0 10" "example_row ''C'' ''X'' 0 10" "EventIdNot ''E''"]
  by (simp add: example_defs findFirst_conflict_def conflict_where_def event_not_cancelled_def
      spec_conflict_def)

text \<open>
  Claim C10. The actor of an audit row is derived from the request alone: the authenticated
  email when there is one, otherwise the header x-actor, otherwise the header x-user,
  otherwise the word browser, cut to 80 characters; and every audit row that a write route
  adds carries the actor so derived from its request.
\<close>

theorem actor_derivation:
  "getActor req = take 80 (spec_actor req) \<and> length (getActor req) \<le> 80 \<and>
   (\<exists>new. audits (apply_op op s) = audits s @ new \<and>
          list_all (\<lambda>a. au_actor a = getActor (op_request op)) new)"
  using op_audits_actor [of op s] by (simp add: getActor_spec)

text \<open>
  Claim C7. Removing the reservation of an event never fails and can be repeated: without
  a reservation the reply is \<open>deleted = 0\<close> and nothing is written; with one, the row is
  deleted, the reply is \<open>deleted = 1\<close>, and one UNRESERVE audit row is added whose \<open>from\<close>
  is the layout, stand, start and end of the deleted row and whose \<open>to\<close> is null. A second
  call right after the first replies \<open>deleted = 0\<close> and changes nothing.
\<close>

theorem unassign_idempotent:
  assumes "unique_reservation s"
  shows "(findUnique_reservation s e = None \<longrightarrow> unassignReservation req e s = (0, s)) \<and>
   (\<forall>ex. findUnique_reservation s e = Some ex \<longrightarrow>
      unassignReservation req e s =
        (1, s\<lparr>reservations := filter (\<lambda>r. rs_eventId r \<noteq> e) (reservations s),
              audits := audits s @
                [\<lparr>au_eventId = e, au_action = UNRESERVE, au_actor = getActor req,
                  au_reason = Some reason_unreserve,
                  au_changes = ReservationChange
                    (Some \<lparr>pl_layoutId = rs_layoutId ex, pl_standId = rs_standId ex,
                           pl_startAt = rs_startAt ex, pl_endAt = rs_endAt ex\<rparr>)
                    None\<rparr>]\<rparr>)) \<and>
   findUnique_reservation (snd (unassignReservation req e s)) e = None \<and>
   unassignReservation req' e (snd (unassignReservation req e s))
     = (0, snd (unassignReservation req e s))"
proof -
  have gone: "findUnique_reservation (snd (unassignReservation req e s)) e = None"
    by (rule unassign_gone)
  have none: "findUnique_reservation s e = None \<longrightarrow> unassignReservation req e s = (0, s)"
    by (simp add: unassignReservation_def)
  have some: "unassignReservation req e s =
        (1, s\<lparr>reservations := filter (\<lambda>r. rs_eventId r \<noteq> e) (reservations s),
              audits := audits s @
                [\<lparr>au_eventId = e, au_action = UNRESERVE, au_actor = getActor req,
                  au_reason = Some reason_unreserve,
                  au_changes = ReservationChange
                    (Some \<lparr>pl_layoutId = rs_layoutId ex, pl_standId = rs_standId ex,
                           pl_startAt = rs_startAt ex, pl_endAt = rs_endAt ex\<rparr>)
                    None\<rparr>]\<rparr>)"
    if ex: "findUnique_reservation s e = Some ex" for ex
  proof -
    from assms ex have "filter (\<lambda>r. rs_eventId r = e) (reservations s) = [ex]"
      unfolding unique_reservation_def findUnique_reservation_def
      by (rule find_distinct_filter)
    with ex show ?thesis
      by (simp add: unassignReservation_def Let_def deleteMany_reservations_def create_audit_def
          snapshot_def)
  qed
  have again: "unassignReservation req' e (snd (unassignReservation req e s))
     = (0, snd (unassignReservation req e s))"
    using gone by (simp add: unassignReservation_def [of req'])
  from none some gone again show ?thesis by blast
qed

text \<open>With \<open>E\<close> on stand \<open>X\<close> of layout \<open>L\<close> for \<open>[0, 10)\<close>: the first call deletes one
  row and writes the audit row with that placement, the second deletes none; an event
  without a reservation deletes none.\<close>

theorem unassign_idempotent_witness:
  "unique_reservation (example_placed [(''E'', ''X'', 0, 10)]) \<and>
   fst (unassignReservation example_request ''E'' (example_placed [(''E'', ''X'', 0, 10)])) = 1 \<and>
   reservations (snd (unassignReservation example_request ''E''
      (example_placed [(''E'', ''X'', 0, 10)]))) = [] \<and>
   audits (snd (unassignReservation example_request ''E''
      (example_placed [(''E'', ''X'', 0, 10)])))
     = [\<lparr>au_eventId = ''E'', au_action = UNRESERVE, au_actor = ''browser'',
         au_reason = Some reason_unreserve,
         au_changes = ReservationChange
           (Some \<lparr>pl_layoutId = ''L'', pl_standId = ''X'', pl_startAt = 0, pl_endAt = 10\<rparr>)
           None\<rparr>] \<and>
   fst (unassignReservation example_request ''E''
          (snd (unassignReservation example_request ''E'' (example_placed [(''E'', ''X'', 0, 10)])))) = 0 \<and>
   fst (unassignReservation example_request ''C'' (example_placed [(''E'', ''X'', 0, 10)])) = 0"
proof -
  let ?s = "example_placed [(''E'', ''X'', 0, 10)]"
  have u: "unique_reservation ?s"
    by (simp add: unique_reservation_def example_defs)
  have f: "findUnique_reservation ?s ''E'' = Some (example_row ''E'' ''X'' 0 10)"
       "findUnique_reservation ?s ''C'' = None"
    by (simp_all add: findUnique_reservation_def example_defs)
  note e = unassign_idempotent [OF u, of "''E''" example_request example_request]
  note c = unassign_idempotent [OF u, of "''C''" example_request example_request]
  from e [THEN conjunct2, THEN conjunct1, rule_format, OF f(1)]
  have eq: "unassignReservation example_request ''E'' ?s =
        (1, ?s\<lparr>reservations := filter (\<lambda>r. rs_eventId r \<noteq> ''E'') (reservations ?s),
              audits := audits ?s @
                [\<lparr>au_eventId = ''E'', au_action = UNRESERVE, au_actor = getActor example_request,
                  au_reason = Some reason_unreserve,
                  au_changes = ReservationChange
                    (Some \<lparr>pl_layoutId = rs_layoutId (example_row ''E'' ''X'' 0 10),
                           pl_standId = rs_standId (example_row ''E'' ''X'' 0 10),
                           pl_startAt = rs_startAt (example_row ''E'' ''X'' 0 10),
                           pl_endAt = rs_endAt (example_row ''E'' ''X'' 0 10)\<rparr>)
                    None\<rparr>]\<rparr>)" .
  have first: "fst (unassignReservation example_request ''E'' ?s) = 1"
    by (simp only: eq fst_conv)
  have rows: "reservations (snd (unassignReservation example_request ''E'' ?s)) = []"
    unfolding eq by (simp add: example_defs)
  have log: "audits (snd (unassignReservation example_request ''E'' ?s))
     = [\<lparr>au_eventId = ''E'', au_action = UNRESERVE, au_actor = ''browser'',
         au_reason = Some reason_unreserve,
         au_changes = ReservationChange
           (Some \<lparr>pl_layoutId = ''L'', pl_standId = ''X'', pl_startAt = 0, pl_endAt = 10\<rparr>)
           None\<rparr>]"
    unfolding eq by (simp add: example_defs getActor_def header_actor_def)
  from e [THEN conjunct2, THEN conjunct2, THEN conjunct2]
  have second: "fst (unassignReservation example_request ''E''
          (snd (unassignReservation example_request ''E'' ?s))) = 0"
    by (simp only: fst_conv)
  from c f have other: "fst (unassignReservation example_request ''C'' ?s) = 0"
    by simp
  from u first rows log second other show ?thesis by (simp only: simp_thms)
qed

text \<open>
  Claim C3. The assign route asks for a change reason exactly when the upserted row differs
  from the earlier one, and a first assignment needs none. The route computes
  \<^verbatim>\<open>changed\<close> as true when there was no earlier reservation, so a first assignment without a
  reason is answered with the 400 \<^verbatim>\<open>changeReason is required when changing reservation\<close>: here
  event \<open>E\<close> has no reservation, stand \<open>X\<close> is free, and the request is rejected.
\<close>

theorem first_assignment_without_reason_rejected:
  "findUnique_reservation example_store ''E'' = None \<and>
   findFirst_conflict example_store ''X'' ''E'' 0 10 = None \<and>
   fst (assignReservation example_request ''E'' (example_assign ''L'' ''X'' 0 10 None) example_store)
     = Inl (BadRequest ''changeReason is required when changing reservation'')"
  by (simp add: example_defs route_defs Let_def)

text \<open>
  Claim C2. A placement request that fails leaves the database as it was. The assign route
  is not a transaction and tests the change reason after the upsert and the update of the
  event: moving \<open>E\<close> from stand \<open>X\<close> to stand \<open>Y\<close> of layout \<open>L2\<close> without a reason is
  answered with the 400, the reservation row and the event's layout and hangar are
  rewritten all the same, and no audit row is added.
\<close>

theorem assign_rejects_after_writing:
  "fst (assignReservation example_request ''E'' (example_assign ''L2'' ''Y'' 0 10 None)
         (example_placed [(''E'', ''X'', 0, 10)]))
     = Inl (BadRequest ''changeReason is required when changing reservation'') \<and>
   reservations (example_placed [(''E'', ''X'', 0, 10)]) = [example_row ''E'' ''X'' 0 10] \<and>
   reservations (snd (assignReservation example_request ''E'' (example_assign ''L2'' ''Y'' 0 10 None)
         (example_placed [(''E'', ''X'', 0, 10)])))
     = [\<lparr>rs_eventId = ''E'', rs_layoutId = ''L2'', rs_standId = ''Y'', rs_startAt = 0,
         rs_endAt = 10\<rparr>] \<and>
   events (example_placed [(''E'', ''X'', 0, 10)]) ''E'' = Some example_event \<and>
   events (snd (assignReservation example_request ''E'' (example_assign ''L2'' ''Y'' 0 10 None)
         (example_placed [(''E'', ''X'', 0, 10)]))) ''E''
     = Some (example_event\<lparr>ev_hangarId := Some ''H2'', ev_layoutId := Some ''L2''\<rparr>) \<and>
   audits (snd (assignReservation example_request ''E'' (example_assign ''L2'' ''Y'' 0 10 None)
         (example_placed [(''E'', ''X'', 0, 10)]))) = []"
  by (simp add: example_defs route_defs Let_def)

text \<open>
  Claim C1. After any sequence of requests the reservations of non-cancelled events on one
  stand do not overlap, also when a drag-and-drop request names the event to bump. With
  \<^verbatim>\<open>bumpedEventId\<close> the route looks for conflicts of the named event only: \<open>C\<close> holds stand
  \<open>X\<close> for \<open>[0, 5)\<close> and \<open>B\<close> for \<open>[5, 10)\<close>; \<open>E\<close>, with the window \<open>[0, 10)\<close>, is moved to
  \<open>X\<close> with \<open>B\<close> named. \<open>B\<close> is displaced, and \<open>E\<close> is committed over \<open>C\<close>.
\<close>

theorem named_bump_commits_overlap:
  "non_overlap (run [Assign example_request ''C'' (example_assign ''L'' ''X'' 0 5 (Some ''plan'')),
                     Assign example_request ''B'' (example_assign ''L'' ''X'' 5 10 (Some ''plan''))]
                  example_store) \<and>
   reservations (run [Assign example_request ''C'' (example_assign ''L'' ''X'' 0 5 (Some ''plan'')),
                      Assign example_request ''B'' (example_assign ''L'' ''X'' 5 10 (Some ''plan'')),
                      DndMove example_request (example_move ''E'' ''X'' True (Some ''B''))]
                  example_store)
     = [example_row ''C'' ''X'' 0 5, example_row ''E'' ''X'' 0 10] \<and>
   \<not> non_overlap
       (run [Assign example_request ''C'' (example_assign ''L'' ''X'' 0 5 (Some ''plan'')),
             Assign example_request ''B'' (example_assign ''L'' ''X'' 5 10 (Some ''plan'')),
             DndMove example_request (example_move ''E'' ''X'' True (Some ''B''))]
          example_store)"
  by (simp add: run_def example_defs route_defs Let_def non_overlap_def windows_overlap_def)

text \<open>
  Claim C6. When a drag-and-drop request with \<^verbatim>\<open>bumpOnConflict\<close> finds conflicting
  reservations, the bump deletes each conflicting row, clears the hangar and the layout of
  its event, sets the event to DRAFT, and writes one audit row for it that records the
  earlier placement and the moving event. The audit row of the route holds only
  \<^verbatim>\<open>bumpedByEventId\<close> and the state the event is left in: \<open>E\<close> is moved onto stand \<open>X\<close>, held
  by \<open>B\<close> for \<open>[5, 10)\<close>. \<open>B\<close> loses its row, hangar and layout and becomes DRAFT, and the
  row written for \<open>B\<close> holds no placement: it is the same row when \<open>B\<close> held the stand for
  \<open>[2, 10)\<close>.
\<close>

theorem bump_audit_omits_prior_placement:
  "findUnique_reservation (example_placed [(''B'', ''X'', 5, 10)]) ''B''
     = Some \<lparr>rs_eventId = ''B'', rs_layoutId = ''L'', rs_standId = ''X'', rs_startAt = 5,
             rs_endAt = 10\<rparr> \<and>
   fst (dndMove example_request (example_move ''E'' ''X'' True None)
     (example_placed [(''B'', ''X'', 5, 10)]))
     = Inr (\<lparr>rs_eventId = ''E'', rs_layoutId = ''L'', rs_standId = ''X'', rs_startAt = 0,
             rs_endAt = 10\<rparr>, [''B'']) \<and>
   findUnique_reservation
     (snd (dndMove example_request (example_move ''E'' ''X'' True None)
        (example_placed [(''B'', ''X'', 5, 10)]))) ''B'' = None \<and>
   events
     (snd (dndMove example_request (example_move ''E'' ''X'' True None)
        (example_placed [(''B'', ''X'', 5, 10)]))) ''B''
     = Some (example_event\<lparr>ev_hangarId := None, ev_layoutId := None, ev_status := DRAFT\<rparr>) \<and>
   audits (snd (dndMove example_request (example_move ''E'' ''X'' True None)
     (example_placed [(''B'', ''X'', 5, 10)])))
   = [\<lparr>au_eventId = ''B'', au_action = UPDATE, au_actor = ''browser'',
       au_reason = Some ''swap'', au_changes = DndBumped ''E'' None DRAFT None None\<rparr>,
      \<lparr>au_eventId = ''E'', au_action = RESERVE, au_actor = ''browser'',
       au_reason = Some ''swap'',
       au_changes = DndReserve True [''B''] None
         (Some \<lparr>pl_layoutId = ''L'', pl_standId = ''X'', pl_startAt = 0, pl_endAt = 10\<rparr>)\<rparr>] \<and>
   findUnique_reservation (example_placed [(''B'', ''X'', 2, 10)]) ''B''
     = Some \<lparr>rs_eventId = ''B'', rs_layoutId = ''L'', rs_standId = ''X'', rs_startAt = 2,
             rs_endAt = 10\<rparr> \<and>
   audits (snd (dndMove example_request (example_move ''E'' ''X'' True None)
     (example_placed [(''B'', ''X'', 2, 10)])))
   = audits (snd (dndMove example_request (example_move ''E'' ''X'' True None)
     (example_placed [(''B'', ''X'', 5, 10)])))"
  by (simp add: example_defs route_defs Let_def getActor_def header_actor_def)





text \<open>
  Claim C8. In every state that requests lead to, an event has at most one reservation
  row, and a successful placement of an event leaves exactly one row for it, the row it
  returns: the assign route overwrites the row of an event that has one where it stands
  (the keys of the table stay as they are). So after event \<open>e\<close> is assigned to one stand and
  then to another, its only row is the second one.
\<close>

theorem one_reservation_per_event:
  assumes "unique_reservation s"
  shows "unique_reservation (run ops s) \<and>
     (\<forall>r s'. assignReservation req e body s = (Inr r, s') \<longrightarrow>
        filter (\<lambda>y. rs_eventId y = e) (reservations s') = [r] \<and>
        (findUnique_reservation s e \<noteq> None \<longrightarrow>
           map rs_eventId (reservations s') = map rs_eventId (reservations s))) \<and>
     (\<forall>r bumped s'. dndMove req mbody s = (Inr (r, bumped), s') \<longrightarrow>
        filter (\<lambda>y. rs_eventId y = dm_eventId mbody) (reservations s') = [r]) \<and>
     (\<forall>r bumped s'. dndPlace req pbody s = (Inr (r, bumped), s') \<longrightarrow>
        filter (\<lambda>y. rs_eventId y = dp_eventId pbody) (reservations s') = [r]) \<and>
     (\<forall>r1 s1 r2 s2.
        assignReservation req e body s = (Inr r1, s1) \<and>
        assignReservation req' e body' s1 = (Inr r2, s2) \<longrightarrow>
          filter (\<lambda>y. rs_eventId y = e) (reservations s2) = [r2] \<and>
          rs_standId r2 = ab_standId body')"
proof (intro conjI allI impI)
  show "unique_reservation (run ops s)" by (rule run_unique [OF assms])
next
  fix r s' assume "assignReservation req e body s = (Inr r, s')"
  from assign_single(1) [OF assms this]
  show "filter (\<lambda>y. rs_eventId y = e) (reservations s') = [r]" .
next
  fix r s' assume "assignReservation req e body s = (Inr r, s')"
    and "findUnique_reservation s e \<noteq> None"
  from assign_single(2) [OF assms this]
  show "map rs_eventId (reservations s') = map rs_eventId (reservations s)" .
next
  fix r bumped s' assume ok: "dndMove req mbody s = (Inr (r, bumped), s')"
  then have "dndMove_tx req mbody s = Inr ((r, bumped), s')"
    by (cases rule: dndMove_cases [of req mbody s]) simp_all
  from dndMove_tx_unique(2) [OF assms this]
  show "filter (\<lambda>y. rs_eventId y = dm_eventId mbody) (reservations s') = [r]" by simp
next
  fix r bumped s' assume ok: "dndPlace req pbody s = (Inr (r, bumped), s')"
  then have "dndPlace_tx req pbody s = Inr ((r, bumped), s')"
    by (cases rule: dndPlace_cases [of req pbody s]) simp_all
  from dndPlace_tx_unique(2) [OF assms this]
  show "filter (\<lambda>y. rs_eventId y = dp_eventId pbody) (reservations s') = [r]" by simp
next
  fix r1 s1 r2 s2
  assume two: "assignReservation req e body s = (Inr r1, s1) \<and>
        assignReservation req' e body' s1 = (Inr r2, s2)"
  from assign_unique [OF assms, of req e body] two have u1: "unique_reservation s1" by simp
  from two have second: "assignReservation req' e body' s1 = (Inr r2, s2)" by simp
  from assign_single(1) [OF u1 second]
  show "filter (\<lambda>y. rs_eventId y = e) (reservations s2) = [r2]" .
  from assign_single(3) [OF u1 second] show "rs_standId r2 = ab_standId body'" .
qed


text \<open>\<open>E\<close> is assigned to stand \<open>X\<close> and then to stand \<open>Y\<close>: the table holds one row
  for \<open>E\<close>, on \<open>Y\<close>.\<close>

theorem one_reservation_per_event_witness:
  "unique_reservation example_store \<and>
   unique_reservation
     (run [Assign example_request ''E'' (example_assign ''L'' ''X'' 0 10 (Some ''plan'')),
           Assign example_request ''E'' (example_assign ''L'' ''Y'' 0 10 (Some ''move''))]
        example_store) \<and>
   filter (\<lambda>y. rs_eventId y = ''E'')
     (reservations
        (snd (assignReservation example_request ''E''
                (example_assign ''L'' ''Y'' 0 10 (Some ''move''))
                (snd (assignReservation example_request ''E''
                        (example_assign ''L'' ''X'' 0 10 (Some ''plan'')) example_store)))))
     = [example_row ''E'' ''Y'' 0 10] \<and>
   rs_standId (example_row ''E'' ''Y'' 0 10) = ''Y''"
proof -
  let ?first = "assignReservation example_request ''E''
      (example_assign ''L'' ''X'' 0 10 (Some ''plan'')) example_store"
  let ?second = "assignReservation example_request ''E''
      (example_assign ''L'' ''Y'' 0 10 (Some ''move'')) (snd ?first)"
  have u: "unique_reservation example_store"
    by (simp add: unique_reservation_def example_defs)
  have "fst ?first = Inr (example_row ''E'' ''X'' 0 10)"
    by (simp add: example_defs route_defs Let_def)
  then have one: "?first = (Inr (example_row ''E'' ''X'' 0 10), snd ?first)"
    by (metis prod.collapse)
  have "fst ?second = Inr (example_row ''E'' ''Y'' 0 10)"
    by (simp add: example_defs route_defs Let_def)
  then have two: "?second = (Inr (example_row ''E'' ''Y'' 0 10), snd ?second)"
    by (metis prod.collapse)
  note t = one_reservation_per_event [OF u, of
      "[Assign example_request ''E'' (example_assign ''L'' ''X'' 0 10 (Some ''plan'')),
        Assign example_request ''E'' (example_assign ''L'' ''Y'' 0 10 (Some ''move''))]"
      example_request "''E''" "example_assign ''L'' ''X'' 0 10 (Some ''plan'')"
      "example_move ''E'' ''X'' True None" "example_place ''E'' ''X'' 0 10 True None"
      example_request "example_assign ''L'' ''Y'' 0 10 (Some ''move'')"]
  from t have reach: "unique_reservation
     (run [Assign example_request ''E'' (example_assign ''L'' ''X'' 0 10 (Some ''plan'')),
           Assign example_request ''E'' (example_assign ''L'' ''Y'' 0 10 (Some ''move''))]
        example_store)"
    by (rule conjunct1)
  from t [THEN conjunct2, THEN conjunct2, THEN conjunct2, THEN conjunct2, rule_format,
      OF conjI [OF one two]]
  have last: "filter (\<lambda>y. rs_eventId y = ''E'') (reservations (snd ?second))
      = [example_row ''E'' ''Y'' 0 10]"
    and stand: "rs_standId (example_row ''E'' ''Y'' 0 10) = ''Y''"
    by (simp_all add: example_assign_def)
  from u reach last stand show ?thesis by (simp only: simp_thms)
qed

text \<open>
  Claim C4, as amended. After every request, an event that has a reservation has the
  layout of its reservation and the hangar of that layout. After a drag-and-drop request
  that bumps, every bumped event other than the moved one has no reservation and a null
  hangar and layout. Removing the reservation of an event deletes the row only: the hangar
  and the layout of the event stay as they were.
\<close>

theorem pointers_follow_reservation:
  "(pointer_sync s \<longrightarrow> pointer_sync (apply_op op s) \<and> pointer_sync (run ops s)) \<and>
   (\<forall>r \<in> set (reservations s). pointer_sync s \<longrightarrow>
      (\<exists>ev h. events s (rs_eventId r) = Some ev \<and> ev_layoutId ev = Some (rs_layoutId r) \<and>
              ev_hangarId ev = Some h \<and> layouts s (rs_layoutId r) = Some h)) \<and>
   (\<forall>r bumped s' b.
      dndMove req mbody s = (Inr (r, bumped), s') \<and> b \<in> set bumped \<and> b \<noteq> dm_eventId mbody \<longrightarrow>
        findUnique_reservation s' b = None \<and>
        (\<exists>ev. events s' b = Some ev \<and> ev_hangarId ev = None \<and> ev_layoutId ev = None)) \<and>
   (\<forall>r bumped s' b.
      dndPlace req pbody s = (Inr (r, bumped), s') \<and> b \<in> set bumped \<and> b \<noteq> dp_eventId pbody \<longrightarrow>
        findUnique_reservation s' b = None \<and>
        (\<exists>ev. events s' b = Some ev \<and> ev_hangarId ev = None \<and> ev_layoutId ev = None)) \<and>
   findUnique_reservation (snd (unassignReservation req e s)) e = None \<and>
   events (snd (unassignReservation req e s)) = events s"
proof (intro conjI impI ballI allI)
  assume "pointer_sync s"
  then show "pointer_sync (apply_op op s)" by (rule apply_op_sync)
next
  assume "pointer_sync s"
  then show "pointer_sync (run ops s)" by (rule run_sync)
next
  fix r assume "r \<in> set (reservations s)" and "pointer_sync s"
  then show "\<exists>ev h. events s (rs_eventId r) = Some ev \<and> ev_layoutId ev = Some (rs_layoutId r) \<and>
              ev_hangarId ev = Some h \<and> layouts s (rs_layoutId r) = Some h"
    unfolding pointer_sync_iff by blast
next
  fix r bumped s' b
  assume a: "dndMove req mbody s = (Inr (r, bumped), s') \<and> b \<in> set bumped \<and>
      b \<noteq> dm_eventId mbody"
  then have tx: "dndMove_tx req mbody s = Inr ((r, bumped), s')"
    by (cases rule: dndMove_cases [of req mbody s]) simp_all
  from a have b: "b \<in> set (snd (r, bumped))" "b \<noteq> dm_eventId mbody" by simp_all
  from dndMove_tx_bumped(1) [OF tx b] show "findUnique_reservation s' b = None" .
  from dndMove_tx_bumped(2) [OF tx b]
  show "\<exists>ev. events s' b = Some ev \<and> ev_hangarId ev = None \<and> ev_layoutId ev = None" by auto
next
  fix r bumped s' b
  assume a: "dndPlace req pbody s = (Inr (r, bumped), s') \<and> b \<in> set bumped \<and>
      b \<noteq> dp_eventId pbody"
  then have tx: "dndPlace_tx req pbody s = Inr ((r, bumped), s')"
    by (cases rule: dndPlace_cases [of req pbody s]) simp_all
  from a have b: "b \<in> set (snd (r, bumped))" "b \<noteq> dp_eventId pbody" by simp_all
  from dndPlace_tx_bumped(1) [OF tx b] show "findUnique_reservation s' b = None" .
  from dndPlace_tx_bumped(2) [OF tx b]
  show "\<exists>ev. events s' b = Some ev \<and> ev_hangarId ev = None \<and> ev_layoutId ev = None" by auto
next
  show "findUnique_reservation (snd (unassignReservation req e s)) e = None"
    by (rule unassign_gone)
  show "events (snd (unassignReservation req e s)) = events s" by (rule unassign_events)
qed

text \<open>\<open>B\<close> holds stand \<open>X\<close> for \<open>[5, 10)\<close>, in step with its event. Moving \<open>E\<close> onto
  \<open>X\<close> with a bump keeps the events in step with the reservations and leaves \<open>B\<close> without
  row, hangar and layout; placing \<open>E\<close> on \<open>X\<close> for \<open>[5, 15)\<close> does the same; removing the
  reservation of \<open>B\<close> instead leaves its event as it was.\<close>

theorem pointers_follow_reservation_witness:
  "pointer_sync (example_placed [(''B'', ''X'', 5, 10)]) \<and>
   pointer_sync (apply_op (DndMove example_request (example_move ''E'' ''X'' True None))
                   (example_placed [(''B'', ''X'', 5, 10)])) \<and>
   pointer_sync (run [DndMove example_request (example_move ''E'' ''X'' True None),
                      Unassign example_request ''E'']
                   (example_placed [(''B'', ''X'', 5, 10)])) \<and>
   events (example_placed [(''B'', ''X'', 5, 10)]) ''B'' = Some example_event \<and>
   ev_layoutId example_event = Some ''L'' \<and>
   layouts (example_placed [(''B'', ''X'', 5, 10)]) ''L'' = ev_hangarId example_event \<and>
   fst (dndMove example_request (example_move ''E'' ''X'' True None)
          (example_placed [(''B'', ''X'', 5, 10)]))
     = Inr (example_row ''E'' ''X'' 0 10, [''B'']) \<and>
   findUnique_reservation
     (snd (dndMove example_request (example_move ''E'' ''X'' True None)
             (example_placed [(''B'', ''X'', 5, 10)]))) ''B'' = None \<and>
   map_option ev_hangarId
     (events (snd (dndMove example_request (example_move ''E'' ''X'' True None)
                     (example_placed [(''B'', ''X'', 5, 10)]))) ''B'') = Some None \<and>
   map_option ev_layoutId
     (events (snd (dndMove example_request (example_move ''E'' ''X'' True None)
                     (example_placed [(''B'', ''X'', 5, 10)]))) ''B'') = Some None \<and>
   fst (dndPlace example_request (example_place ''E'' ''X'' 5 15 True None)
          (example_placed [(''B'', ''X'', 5, 10)]))
     = Inr (example_row ''E'' ''X'' 5 15, [''B'']) \<and>
   findUnique_reservation
     (snd (dndPlace example_request (example_place ''E'' ''X'' 5 15 True None)
             (example_placed [(''B'', ''X'', 5, 10)]))) ''B'' = None \<and>
   map_option ev_layoutId
     (events (snd (dndPlace example_request (example_place ''E'' ''X'' 5 15 True None)
                     (example_placed [(''B'', ''X'', 5, 10)]))) ''B'') = Some None \<and>
   findUnique_reservation
     (snd (unassignReservation example_request ''B'' (example_placed [(''B'', ''X'', 5, 10)])))
     ''B'' = None \<and>
   events (snd (unassignReservation example_request ''B''
                  (example_placed [(''B'', ''X'', 5, 10)]))) ''B'' = Some example_event"
proof -
  let ?s = "example_placed [(''B'', ''X'', 5, 10)]"
  let ?b = "example_row ''B'' ''X'' 5 10"
  let ?m = "example_move ''E'' ''X'' True None"
  let ?p = "example_place ''E'' ''X'' 5 15 True None"
  have sync: "pointer_sync ?s" by (simp add: pointer_sync_def example_defs)
  have row: "?b \<in> set (reservations ?s)" by (simp add: example_defs)
  have ev: "events ?s ''B'' = Some example_event" by (simp add: example_defs)
  have mv: "fst (dndMove example_request ?m ?s) = Inr (example_row ''E'' ''X'' 0 10, [''B''])"
    by (simp add: example_defs route_defs Let_def)
  then have mv': "dndMove example_request ?m ?s
      = (Inr (example_row ''E'' ''X'' 0 10, [''B'']), snd (dndMove example_request ?m ?s))"
    by (metis prod.collapse)
  have pl: "fst (dndPlace example_request ?p ?s) = Inr (example_row ''E'' ''X'' 5 15, [''B''])"
    by (simp add: example_defs route_defs Let_def)
  then have pl': "dndPlace example_request ?p ?s
      = (Inr (example_row ''E'' ''X'' 5 15, [''B'']), snd (dndPlace example_request ?p ?s))"
    by (metis prod.collapse)
  have mb: "''B'' \<in> set [''B''] \<and> ''B'' \<noteq> dm_eventId ?m" by (simp add: example_defs)
  have pb: "''B'' \<in> set [''B''] \<and> ''B'' \<noteq> dp_eventId ?p" by (simp add: example_defs)
  note t = pointers_follow_reservation [of ?s
      "DndMove example_request ?m"
      "[DndMove example_request ?m, Unassign example_request ''E'']"
      example_request ?m ?p "''B''"]
  from t sync have step: "pointer_sync (apply_op (DndMove example_request ?m) ?s)"
    and run: "pointer_sync (run [DndMove example_request ?m, Unassign example_request ''E''] ?s)"
    by simp_all
  from t [THEN conjunct2, THEN conjunct1, rule_format, OF row sync] ev
  have inst: "ev_layoutId example_event = Some ''L''"
    "layouts ?s ''L'' = ev_hangarId example_event"
    by (auto simp: example_row_def)
  from t [THEN conjunct2, THEN conjunct2, THEN conjunct1, rule_format, OF conjI [OF mv' mb]]
  have moved: "findUnique_reservation (snd (dndMove example_request ?m ?s)) ''B'' = None"
    "map_option ev_hangarId (events (snd (dndMove example_request ?m ?s)) ''B'') = Some None"
    "map_option ev_layoutId (events (snd (dndMove example_request ?m ?s)) ''B'') = Some None"
    by auto
  from t [THEN conjunct2, THEN conjunct2, THEN conjunct2, THEN conjunct1, rule_format,
      OF conjI [OF pl' pb]]
  have placed: "findUnique_reservation (snd (dndPlace example_request ?p ?s)) ''B'' = None"
    "map_option ev_layoutId (events (snd (dndPlace example_request ?p ?s)) ''B'') = Some None"
    by auto
  from t [THEN conjunct2, THEN conjunct2, THEN conjunct2, THEN conjunct2] ev
  have removed: "findUnique_reservation
       (snd (unassignReservation example_request ''B'' ?s)) ''B'' = None"
    "events (snd (unassignReservation example_request ''B'' ?s)) ''B'' = Some example_event"
    by simp_all
  from sync step run ev inst mv moved pl placed removed show ?thesis by (simp only: simp_thms)
qed

text \<open>The claim as stated has an event without a reservation hold a null hangar and
  layout, also after its reservation is removed. \<open>E\<close> is assigned to stand \<open>Y\<close> of layout
  \<open>L2\<close> and the reservation is removed again: \<open>E\<close> has no row and still points at \<open>L2\<close> and
  its hangar \<open>H2\<close>.\<close>

theorem pointers_kept_after_unassign:
  "findUnique_reservation
     (run [Assign example_request ''E'' (example_assign ''L2'' ''Y'' 0 10 (Some ''plan'')),
           Unassign example_request ''E''] example_store) ''E'' = None \<and>
   map_option ev_layoutId
     (events (run [Assign example_request ''E'' (example_assign ''L2'' ''Y'' 0 10 (Some ''plan'')),
                   Unassign example_request ''E''] example_store) ''E'') = Some (Some ''L2'') \<and>
   map_option ev_hangarId
     (events (run [Assign example_request ''E'' (example_assign ''L2'' ''Y'' 0 10 (Some ''plan'')),
                   Unassign example_request ''E''] example_store) ''E'') = Some (Some ''H2'') \<and>
   fst (unassignReservation example_request ''E''
          (run [Assign example_request ''E'' (example_assign ''L2'' ''Y'' 0 10 (Some ''plan''))]
             example_store)) = 1"
  by (simp add: run_def example_defs route_defs Let_def)

end
